theory Spec2Isabelle
  imports Complex_Main
begin

section \<open>JavaScript values\<close>

text \<open>
  The review pipeline of \<^verbatim>\<open>agents.js\<close> works on values decoded from model
  responses, so every field it reads may hold any JSON value or be missing. A value is
  therefore one of JavaScript's: \<open>undefined\<close>, \<open>null\<close>, a boolean, a number, a
  string, an array or an object (its properties as an association list, looked up with
  \<open>map_of\<close>). Numbers are kept as rationals: the code only ever tests a number for
  truthiness. Strings are sequences of code units below 256.
\<close>

datatype jsval =
    JUndefined
  | JNull
  | JBool bool
  | JNum rat
  | JStr string
  | JArr "jsval list"
  | JObj "(string \<times> jsval) list"

text \<open>ToBoolean, as used by \<open>||\<close>, \<open>&&\<close>, \<open>!\<close>, \<open>?:\<close> and \<open>if\<close>.\<close>

fun truthy :: "jsval \<Rightarrow> bool" where
  "truthy JUndefined = False"
| "truthy JNull = False"
| "truthy (JBool b) = b"
| "truthy (JNum n) = (n \<noteq> 0)"
| "truthy (JStr s) = (s \<noteq> [])"
| "truthy (JArr xs) = True"
| "truthy (JObj kvs) = True"

text \<open>\<open>a || b\<close>: the left operand when it is truthy, else the right one.\<close>

definition js_or :: "jsval \<Rightarrow> jsval \<Rightarrow> jsval" where
  "js_or a b = (if truthy a then a else b)"

text \<open>
  \<open>x?.name\<close>, and \<open>x.name\<close> where \<open>x\<close> is known to be an object: a nullish
  \<open>x\<close> gives \<open>undefined\<close>, an object gives the property or \<open>undefined\<close>. None of
  the names the code reads exists on a primitive or on an array.
\<close>

fun get_prop :: "jsval \<Rightarrow> string \<Rightarrow> jsval" where
  "get_prop (JObj kvs) k = (case map_of kvs k of Some v \<Rightarrow> v | None \<Rightarrow> JUndefined)"
| "get_prop v k = JUndefined"

text \<open>\<open>x?.[0]\<close>: the first element of an array, the first code unit of a string.\<close>

fun elem0 :: "jsval \<Rightarrow> jsval" where
  "elem0 (JArr (v # vs)) = v"
| "elem0 (JStr (c # cs)) = JStr [c]"
| "elem0 (JObj kvs) = get_prop (JObj kvs) ''0''"
| "elem0 v = JUndefined"

text \<open>
  Conversion to a string, by a template literal, by \<open>+\<close> with a string and by
  \<open>join\<close>. For an object it calls \<open>toString\<close>, and \<open>valueOf\<close> when that is
  not callable. A decoded object has the methods of \<open>Object.prototype\<close> unless a
  property of its own hides them, and a property decoded from JSON is never callable; the
  inherited \<open>valueOf\<close> returns the object itself, which is no primitive. So the
  conversion throws exactly for an object with a property \<open>toString\<close> of its own,
  and for an array with such an element: an array is converted by joining its
  elements, \<open>null\<close> and \<open>undefined\<close> as the empty string.
\<close>

fun stringifies :: "jsval \<Rightarrow> bool" where
  "stringifies (JArr xs) = list_all stringifies xs"
| "stringifies (JObj kvs) = (map_of kvs ''toString'' = None)"
| "stringifies v = True"

section \<open>Errors\<close>

text \<open>
  A thrown value is an \<open>Error\<close> object; the code only reads its \<open>message\<close>. A
  function that may throw returns \<open>js_error + 'a\<close>, \<open>Inl\<close> being the throw.
\<close>

datatype js_error = Error string | TypeError string | SyntaxError string

fun message :: "js_error \<Rightarrow> string" where
  "message (Error m) = m"
| "message (TypeError m) = m"
| "message (SyntaxError m) = m"

text \<open>The error of a conversion to a string that throws.\<close>

definition unprintable :: js_error where
  "unprintable = TypeError ''Cannot convert object to primitive value''"

text \<open>Sequencing of two statements inside one \<open>try\<close> block.\<close>

definition then_try :: "js_error + 'a \<Rightarrow> ('a \<Rightarrow> js_error + 'b) \<Rightarrow> js_error + 'b" where
  "then_try r f = (case r of Inl e \<Rightarrow> Inl e | Inr x \<Rightarrow> f x)"

section \<open>Strings and the regular expressions of parseJSON\<close>

definition nl :: char where
  "nl = CHR 0x0A"

text \<open>
  Case folding of the \<open>i\<close> flag. Without the \<open>u\<close> flag a code unit outside ASCII
  never folds onto an ASCII one, so only \<open>A\<close> to \<open>Z\<close> fold onto the letters of a
  pattern.
\<close>

definition to_lower :: "char \<Rightarrow> char" where
  "to_lower c =
     (case map_of (zip ''ABCDEFGHIJKLMNOPQRSTUVWXYZ'' ''abcdefghijklmnopqrstuvwxyz'') c of
        Some l \<Rightarrow> l
      | None \<Rightarrow> c)"

text \<open>The text starts with the (lower-case) pattern, letters compared without case.\<close>

definition starts_with_ci :: "string \<Rightarrow> string \<Rightarrow> bool" where
  "starts_with_ci p s = (map to_lower (take (length p) s) = p)"

text \<open>Index of the first occurrence of the pattern, compared without case.\<close>

fun find_ci :: "string \<Rightarrow> string \<Rightarrow> nat option" where
  "find_ci p [] = (if p = [] then Some 0 else None)"
| "find_ci p (c # cs) =
     (if starts_with_ci p (c # cs) then Some 0 else map_option Suc (find_ci p cs))"

text \<open>
  Each matcher gives the length of the match of its regular expression at the head of
  the text, if there is one.
  \<^item> \<^verbatim>\<open>/```json\n?/gi\<close>: three backticks, \<open>json\<close> in any case, and a line feed when
    one follows (the quantifier is greedy);
  \<^item> \<^verbatim>\<open>/```\n?/g\<close>: three backticks and a line feed when one follows;
  \<^item> \<^verbatim>\<open>/<think>[\s\S]*?<\/think>/gi\<close>: an opening marker and everything up to the
    first closing marker after it (the quantifier is lazy); no match when no closing
    marker follows.
\<close>

definition fence_json_match :: "string \<Rightarrow> nat option" where
  "fence_json_match s =
     (if starts_with_ci ''```json'' s
      then Some (if take 1 (drop 7 s) = [nl] then 8 else 7)
      else None)"

definition fence_match :: "string \<Rightarrow> nat option" where
  "fence_match s =
     (if take 3 s = ''```''
      then Some (if take 1 (drop 3 s) = [nl] then 4 else 3)
      else None)"

definition think_match :: "string \<Rightarrow> nat option" where
  "think_match s =
     (if starts_with_ci ''<think>'' s
      then map_option (\<lambda>i. 7 + i + 8) (find_ci ''</think>'' (drop 7 s))
      else None)"

text \<open>
  \<open>s.replace(re, '')\<close> with the \<open>g\<close> flag: scan from the left; where the
  expression matches, drop the match and go on after it; otherwise keep the code unit
  and go on with the next. The three matchers never match the empty string.
\<close>

fun replace_all :: "(string \<Rightarrow> nat option) \<Rightarrow> string \<Rightarrow> string" where
  "replace_all m [] = []"
| "replace_all m (c # cs) =
     (case m (c # cs) of
        Some n \<Rightarrow> replace_all m (drop (n - 1) cs)
      | None \<Rightarrow> c # replace_all m cs)"

text \<open>White space and line terminators of \<open>String.prototype.trim\<close> below 256.\<close>

definition is_ws :: "char \<Rightarrow> bool" where
  "is_ws c = (c \<in> set [CHR 0x09, CHR 0x0A, CHR 0x0B, CHR 0x0C, CHR 0x0D, CHR 0x20, CHR 0xA0])"

definition trim :: "string \<Rightarrow> string" where
  "trim s = rev (dropWhile is_ws (rev (dropWhile is_ws s)))"

text \<open>\<open>indexOf\<close> and \<open>lastIndexOf\<close> of one code unit; \<open>None\<close> is \<open>-1\<close>.\<close>

fun index_of :: "char \<Rightarrow> string \<Rightarrow> nat option" where
  "index_of x [] = None"
| "index_of x (c # cs) = (if c = x then Some 0 else map_option Suc (index_of x cs))"

definition last_index_of :: "char \<Rightarrow> string \<Rightarrow> nat option" where
  "last_index_of x s = map_option (\<lambda>i. length s - 1 - i) (index_of x (rev s))"

text \<open>\<open>s.slice(a, b)\<close> for indices inside the string: empty when \<open>b \<le> a\<close>.\<close>

definition slice :: "string \<Rightarrow> nat \<Rightarrow> nat \<Rightarrow> string" where
  "slice s a b = take (b - a) (drop a s)"

text \<open>\<open>s.includes(p)\<close>.\<close>

fun str_includes :: "string \<Rightarrow> string \<Rightarrow> bool" where
  "str_includes p [] = (p = [])"
| "str_includes p (c # cs) = (take (length p) (c # cs) = p \<or> str_includes p cs)"

section \<open>The model roster and the inference client\<close>

datatype provider = Groq | OpenRouter

datatype tier = Fast | Smart | Reason

fun provider_name :: "provider \<Rightarrow> string" where
  "provider_name Groq = ''groq''"
| "provider_name OpenRouter = ''openrouter''"

text \<open>The table \<open>MODELS\<close>: the endpoint of a provider and the model of a tier.\<close>

fun baseURL :: "provider \<Rightarrow> string" where
  "baseURL Groq = ''https://api.groq.com/openai/v1/chat/completions''"
| "baseURL OpenRouter = ''https://openrouter.ai/api/v1/chat/completions''"

fun models :: "provider \<Rightarrow> tier \<Rightarrow> string" where
  "models Groq Fast = ''llama-3.1-8b-instant''"
| "models Groq Smart = ''llama-3.3-70b-versatile''"
| "models Groq Reason = ''deepseek-r1-distill-llama-70b''"
| "models OpenRouter Fast = ''meta-llama/llama-3.2-3b-instruct:free''"
| "models OpenRouter Smart = ''meta-llama/llama-3.1-70b-instruct:free''"
| "models OpenRouter Reason = ''deepseek/deepseek-r1:free''"

text \<open>
  A Question, with the sixteen text columns that \<open>normalizeRow\<close> of
  \<^verbatim>\<open>server.js\<close> fills; an absent column is the empty string. The fields carry the
  prefix \<open>q_\<close> because the review result has fields of the same names.
\<close>

record question =
  q_code :: string
  q_chapter :: string
  q_unit :: string
  q_question :: string
  q_optionA :: string
  q_optionB :: string
  q_optionC :: string
  q_optionD :: string
  q_rightOption :: string
  q_feedback :: string
  q_aiAnswer :: string
  q_finalAnswer :: string
  q_finalExplanation :: string
  q_difficulty :: string
  q_category :: string
  q_queries :: string

text \<open>
  A prompt is a fixed template with values substituted into it. The model keeps which
  template it is and the values it was rendered from, not the rendered text.
\<close>

datatype prompt =
    OrchestratorPrompt question
  | AnswerVerifierPrompt question
  | ConflictAnalyzerPrompt question jsval jsval
  | DifficultyRaterPrompt question
  | UnitCheckerPrompt question
  | ExplanationCriticPrompt question string
  | MemoryTrickPrompt question
  | CalculationCheckerPrompt question

record request =
  url :: string
  headers :: "(string \<times> string) list"
  model :: string
  messages :: prompt
  temperature :: rat
  max_tokens :: nat

record response =
  res_ok :: bool
  res_status :: nat
  res_text :: "js_error + string"
  res_json :: "js_error + jsval"

datatype fetch_outcome = FetchRejected js_error | Fetched response

datatype agent_kind =
    Orchestrator
  | AnswerVerifier
  | ConflictAnalyzer
  | DifficultyRater
  | UnitChecker
  | ExplanationCritic
  | MemoryTrickGenerator
  | CalculationChecker

text \<open>
  What one review gets from outside the program:
  \<^item> \<open>getKey\<close>: the credential of a provider in the process environment, if set;
  \<^item> \<open>fetch\<close>: what the network answers to a request. Within one review no two
    requests are equal (every agent has its own template, and the Answer Verifier's
    three calls differ in provider or tier), so a function of the request covers every
    behaviour of the network;
  \<^item> \<open>JSON_parse\<close>: the platform's \<open>JSON.parse\<close>. \<open>parseJSON\<close> only applies
    it to a slice that is empty or starts with an opening brace, where it throws or
    returns an object, so it is typed to return the properties of an object;
  \<^item> \<open>elapsed_text\<close>: the rendered elapsed time read off the clock;
  \<^item> \<open>finished_at\<close>: when the last call of an agent settles, which orders the log
    lines of agents that run concurrently.
\<close>

record env =
  getKey :: "provider \<Rightarrow> string option"
  fetch :: "request \<Rightarrow> fetch_outcome"
  JSON_parse :: "string \<Rightarrow> js_error + (string \<times> jsval) list"
  elapsed_text :: string
  finished_at :: "agent_kind \<Rightarrow> nat"

text \<open>A number in a template literal, for the status code of a response.\<close>

fun string_of_nat :: "nat \<Rightarrow> string" where
  "string_of_nat n =
     (if n < 10 then [''0123456789'' ! n]
      else string_of_nat (n div 10) @ [''0123456789'' ! (n mod 10)])"

definition missing_key :: "provider \<Rightarrow> js_error" where
  "missing_key provider =
     Error (''Missing API key for '' @ provider_name provider @ ''. Check your .env file.'')"

definition request_for :: "string \<Rightarrow> prompt \<Rightarrow> provider \<Rightarrow> tier \<Rightarrow> rat \<Rightarrow> request" where
  "request_for apiKey msgs provider tier temp =
     \<lparr> url = baseURL provider,
       headers =
         [(''Content-Type'', ''application/json''), (''Authorization'', ''Bearer '' @ apiKey)] @
         (if provider = OpenRouter
          then [(''HTTP-Referer'', ''https://github.com/ea-mcq-review''),
                (''X-Title'', ''EA MCQ Review System'')]
          else []),
       model = models provider tier,
       messages = msgs,
       temperature = temp,
       max_tokens = 1200 \<rparr>"

text \<open>
  \<open>(data.choices?.[0]?.message?.content || '').trim()\<close>: reading \<open>choices\<close> of a
  nullish body throws, and so does \<open>trim\<close> on a truthy content that is no string.
\<close>

definition content_text :: "jsval \<Rightarrow> js_error + string" where
  "content_text data =
     (if data = JNull \<or> data = JUndefined
      then Inl (TypeError ''Cannot read properties of null (reading choices)'')
      else (case js_or (get_prop (get_prop (elem0 (get_prop data ''choices'')) ''message'')
                          ''content'') (JStr [])
            of JStr text \<Rightarrow> Inr (trim text)
             | _ \<Rightarrow> Inl (TypeError ''(intermediate value).trim is not a function'')))"

text \<open>The credential, unless it is missing, empty or a placeholder.\<close>

definition usable_key :: "env \<Rightarrow> provider \<Rightarrow> string option" where
  "usable_key env provider =
     (case getKey env provider of
        None \<Rightarrow> None
      | Some apiKey \<Rightarrow>
          if apiKey = [] \<or> str_includes ''your_'' apiKey then None else Some apiKey)"

definition callLLM :: "env \<Rightarrow> prompt \<Rightarrow> provider \<Rightarrow> tier \<Rightarrow> rat \<Rightarrow> js_error + string" where
  "callLLM env msgs provider tier temp =
     (case usable_key env provider of
        None \<Rightarrow> Inl (missing_key provider)
      | Some apiKey \<Rightarrow>
          (case fetch env (request_for apiKey msgs provider tier temp) of
             FetchRejected e \<Rightarrow> Inl e
           | Fetched res \<Rightarrow>
               if \<not> res_ok res
               then (case res_text res of
                       Inl e \<Rightarrow> Inl e
                     | Inr err \<Rightarrow>
                         Inl (Error (provider_name provider @ '' API error '' @
                                     string_of_nat (res_status res) @ '': '' @ err)))
               else then_try (res_json res) content_text))"

section \<open>The structured response parser\<close>

definition no_json :: js_error where
  "no_json = Error ''No JSON object found in response''"

definition clean_text :: "string \<Rightarrow> string" where
  "clean_text raw =
     trim (replace_all think_match (replace_all fence_match (replace_all fence_json_match raw)))"

definition parseJSON :: "env \<Rightarrow> string \<Rightarrow> js_error + jsval" where
  "parseJSON env raw =
     (let clean = clean_text raw in
      case index_of CHR ''{'' clean of
        None \<Rightarrow> Inl no_json
      | Some start \<Rightarrow>
          (case last_index_of CHR ''}'' clean of
             None \<Rightarrow> Inl no_json
           | Some fin \<Rightarrow> map_sum id JObj (JSON_parse env (slice clean start (fin + 1)))))"

section \<open>The log and the shape of an agent run\<close>

text \<open>
  A log line is a template with values substituted into it, like a prompt: one
  constructor for each line the code pushes to \<open>agentLog\<close>, with the values it
  interpolates.
\<close>

datatype log_line =
    OrchStart string
  | OrchPlan "jsval list" jsval
  | OrchFallback string
  | AVStart
  | AVDone jsval jsval jsval
  | AVFallbackDone jsval
  | AVFailed string
  | CAStart
  | CADone jsval jsval
  | CAFailed string
  | DRStart
  | DRDone jsval jsval
  | DRFailed string
  | UCStart
  | UCDone jsval jsval
  | UCFailed string
  | ECStart
  | ECMissing
  | ECDone jsval jsval
  | ECFailed string
  | MTStart
  | MTDone jsval jsval
  | MTFailed string
  | CCStart
  | CCDone jsval
  | CCFailed string
  | CompleteLine string nat
  | SystemErrorLine string

text \<open>
  One run of an agent: its result, the lines it logs before its first \<open>await\<close>
  (\<open>started\<close>), the lines it logs after (\<open>finished\<close>), the inference calls it
  makes, in order, each by provider and tier, and the error its promise is rejected
  with, if the agent throws.
\<close>

record agent_run =
  kind :: agent_kind
  result :: jsval
  started :: "log_line list"
  finished :: "log_line list"
  calls :: "(provider \<times> tier) list"
  thrown :: "js_error option"

text \<open>The agent that writes a line; the last two are written by \<open>reviewQuestion\<close>.\<close>

fun line_agent :: "log_line \<Rightarrow> agent_kind option" where
  "line_agent (OrchStart c) = Some Orchestrator"
| "line_agent (OrchPlan xs r) = Some Orchestrator"
| "line_agent (OrchFallback m) = Some Orchestrator"
| "line_agent AVStart = Some AnswerVerifier"
| "line_agent (AVDone a c v) = Some AnswerVerifier"
| "line_agent (AVFallbackDone a) = Some AnswerVerifier"
| "line_agent (AVFailed m) = Some AnswerVerifier"
| "line_agent CAStart = Some ConflictAnalyzer"
| "line_agent (CADone r t) = Some ConflictAnalyzer"
| "line_agent (CAFailed m) = Some ConflictAnalyzer"
| "line_agent DRStart = Some DifficultyRater"
| "line_agent (DRDone d c) = Some DifficultyRater"
| "line_agent (DRFailed m) = Some DifficultyRater"
| "line_agent UCStart = Some UnitChecker"
| "line_agent (UCDone b u) = Some UnitChecker"
| "line_agent (UCFailed m) = Some UnitChecker"
| "line_agent ECStart = Some ExplanationCritic"
| "line_agent ECMissing = Some ExplanationCritic"
| "line_agent (ECDone k n) = Some ExplanationCritic"
| "line_agent (ECFailed m) = Some ExplanationCritic"
| "line_agent MTStart = Some MemoryTrickGenerator"
| "line_agent (MTDone t k) = Some MemoryTrickGenerator"
| "line_agent (MTFailed m) = Some MemoryTrickGenerator"
| "line_agent CCStart = Some CalculationChecker"
| "line_agent (CCDone b) = Some CalculationChecker"
| "line_agent (CCFailed m) = Some CalculationChecker"
| "line_agent (CompleteLine t n) = None"
| "line_agent (SystemErrorLine m) = None"

text \<open>
  The values a line converts to strings when its template is rendered. The line of the
  Unit Checker appends the suggested unit only when the question does not belong in its
  unit; the line of the Calculation Checker chooses between two fixed texts.
\<close>

fun line_values :: "log_line \<Rightarrow> jsval list" where
  "line_values (OrchPlan xs r) = xs @ [r]"
| "line_values (AVDone a c v) = [a, c, v]"
| "line_values (AVFallbackDone a) = [a]"
| "line_values (CADone r t) = [r, t]"
| "line_values (DRDone d c) = [d, c]"
| "line_values (UCDone b u) = (if truthy b then [] else [u])"
| "line_values (ECDone k n) = [k, n]"
| "line_values (MTDone t k) = [t, k]"
| "line_values l = []"

text \<open>
  \<open>log(`...`)\<close> inside a \<open>try\<close> block after \<open>x\<close> was computed: rendering the
  line throws when one of its values has no string conversion.
\<close>

definition logging :: "log_line \<Rightarrow> 'a \<Rightarrow> js_error + 'a" where
  "logging line x = (if list_all stringifies (line_values line) then Inr x else Inl unprintable)"

text \<open>The two statements every \<open>try\<close> block of an agent starts with.\<close>

definition call_and_parse :: "env \<Rightarrow> prompt \<Rightarrow> provider \<Rightarrow> tier \<Rightarrow> rat \<Rightarrow> js_error + jsval" where
  "call_and_parse env msgs provider tier temp =
     then_try (callLLM env msgs provider tier temp) (parseJSON env)"

text \<open>
  A piece of code that awaits inference calls: what it returns or throws, and the calls
  it made, in order. The list of calls grows only where \<open>callLLM\<close> is invoked.
  \<^item> \<open>call_attempt\<close>: one awaited \<open>callLLM\<close>;
  \<^item> \<open>attempt_then\<close>: the statements that follow in the same \<open>try\<close> block, which
    make no call;
  \<^item> \<open>attempt_catch\<close>: \<open>try { a } catch { b }\<close>, where \<open>b\<close> ignores the error.
\<close>

type_synonym 'a attempt = "(js_error + 'a) \<times> (provider \<times> tier) list"

definition call_attempt :: "env \<Rightarrow> prompt \<Rightarrow> provider \<Rightarrow> tier \<Rightarrow> rat \<Rightarrow> string attempt" where
  "call_attempt env msgs provider tier temp =
     (callLLM env msgs provider tier temp, [(provider, tier)])"

definition attempt_then :: "'a attempt \<Rightarrow> ('a \<Rightarrow> js_error + 'b) \<Rightarrow> 'b attempt" where
  "attempt_then a f = (then_try (fst a) f, snd a)"

definition attempt_catch :: "'a attempt \<Rightarrow> 'a attempt \<Rightarrow> 'a attempt" where
  "attempt_catch a b = (case fst a of Inr x \<Rightarrow> a | Inl e \<Rightarrow> (fst b, snd a @ snd b))"

text \<open>
  The \<open>try\<close> block shared by the agents with one call: call, parse, log the line of
  the result, return the result.
\<close>

definition try_block ::
  "env \<Rightarrow> prompt \<Rightarrow> provider \<Rightarrow> tier \<Rightarrow> rat \<Rightarrow> (jsval \<Rightarrow> log_line) \<Rightarrow> jsval attempt" where
  "try_block env msgs provider tier temp line =
     attempt_then (attempt_then (call_attempt env msgs provider tier temp) (parseJSON env))
       (\<lambda>res. logging (line res) res)"

section \<open>Agent 1: the Orchestrator\<close>

record plan =
  agents :: "jsval list"
  reasoning :: jsval
  hasAnswerConflict :: jsval
  isNumerical :: jsval

text \<open>
  The rest of the \<open>try\<close> block of \<open>orchestrate\<close> after \<open>parseJSON\<close>: the log
  line reads \<open>plan.agents.join(', ')\<close>, which throws unless \<open>agents\<close> is an array
  whose elements convert to strings, and interpolates \<open>plan.reasoning\<close>. So a plan
  that leaves the block has an array of agents: the record keeps the four properties the
  code reads, the agents as a list.
\<close>

definition plan_of :: "jsval \<Rightarrow> js_error + plan" where
  "plan_of p =
     (case get_prop p ''agents'' of
        JArr xs \<Rightarrow>
          logging (OrchPlan xs (get_prop p ''reasoning''))
            \<lparr> agents = xs, reasoning = get_prop p ''reasoning'',
              hasAnswerConflict = get_prop p ''hasAnswerConflict'',
              isNumerical = get_prop p ''isNumerical'' \<rparr>
      | JUndefined \<Rightarrow> Inl (TypeError ''Cannot read properties of undefined (reading join)'')
      | JNull \<Rightarrow> Inl (TypeError ''Cannot read properties of null (reading join)'')
      | _ \<Rightarrow> Inl (TypeError ''plan.agents.join is not a function''))"

text \<open>The test of \<^verbatim>\<open>/\$|million|thousand|percent|%/\<close> on the question text.\<close>

definition numeric_marker :: "string \<Rightarrow> bool" where
  "numeric_marker s =
     (str_includes ''$'' s \<or> str_includes ''million'' s \<or> str_includes ''thousand'' s \<or>
      str_includes ''percent'' s \<or> str_includes ''%'' s)"

definition default_plan :: "question \<Rightarrow> plan" where
  "default_plan q =
     \<lparr> agents = [JStr ''answer_verifier'', JStr ''difficulty_rater'', JStr ''unit_checker'',
                  JStr ''explanation_critic'', JStr ''memory_trick_generator''],
       reasoning = JStr ''Default full review'',
       hasAnswerConflict = JBool (q_rightOption q \<noteq> q_aiAnswer q),
       isNumerical = JBool (numeric_marker (q_question q)) \<rparr>"

text \<open>The \<open>try\<close> block of \<open>orchestrate\<close>.\<close>

definition planning :: "env \<Rightarrow> question \<Rightarrow> js_error + plan" where
  "planning env q =
     then_try (call_and_parse env (OrchestratorPrompt q) Groq Fast (1 / 10)) plan_of"

definition orchestrate :: "env \<Rightarrow> question \<Rightarrow> plan \<times> log_line list" where
  "orchestrate env q =
     (case planning env q of
        Inr p \<Rightarrow> (p, [OrchStart (q_code q), OrchPlan (agents p) (reasoning p)])
      | Inl e \<Rightarrow> (default_plan q, [OrchStart (q_code q), OrchFallback (message e)]))"

section \<open>Agents 2 to 8\<close>

definition answerVerifier_default :: "js_error \<Rightarrow> jsval" where
  "answerVerifier_default e2 =
     JObj [(''correctAnswer'', JStr ''?''), (''confidence'', JStr ''low''),
           (''verdict'', JStr ''uncertain''), (''needsHumanReview'', JBool True),
           (''humanReviewReason'', JStr (''Agent failed: '' @ message e2))]"

text \<open>
  The Answer Verifier calls the reasoning tier; when that call throws it calls the
  smart tier of the same provider. When that call throws too, or the text does not
  parse, or the log line of the result cannot be rendered, it calls the other provider
  once, and returns its default when that call, its parse or its log line fails.
\<close>

definition verifier_first :: "env \<Rightarrow> prompt \<Rightarrow> js_error + string" where
  "verifier_first env msgs = callLLM env msgs Groq Reason (1 / 10)"

definition verifier_line :: "jsval \<Rightarrow> log_line" where
  "verifier_line res =
     AVDone (get_prop res ''correctAnswer'') (get_prop res ''confidence'') (get_prop res ''verdict'')"

definition verifier_fallback_line :: "jsval \<Rightarrow> log_line" where
  "verifier_fallback_line res = AVFallbackDone (get_prop res ''correctAnswer'')"

text \<open>
  The outer \<open>try\<close> block: the call to the reasoning tier, in its own \<open>try\<close> whose
  \<open>catch\<close> calls the smart tier; then the parse and the log line.
\<close>

definition verifier_primary_attempt :: "env \<Rightarrow> prompt \<Rightarrow> jsval attempt" where
  "verifier_primary_attempt env msgs =
     attempt_then
       (attempt_then
          (attempt_catch (call_attempt env msgs Groq Reason (1 / 10))
             (call_attempt env msgs Groq Smart (1 / 10)))
          (parseJSON env))
       (\<lambda>res. logging (verifier_line res) res)"

definition verifier_primary :: "env \<Rightarrow> prompt \<Rightarrow> js_error + jsval" where
  "verifier_primary env msgs = fst (verifier_primary_attempt env msgs)"

definition verifier_tried :: "env \<Rightarrow> prompt \<Rightarrow> (provider \<times> tier) list" where
  "verifier_tried env msgs = snd (verifier_primary_attempt env msgs)"

text \<open>The \<open>try\<close> block inside the outer \<open>catch\<close>: call, parse, log line.\<close>

definition verifier_fallback_attempt :: "env \<Rightarrow> prompt \<Rightarrow> jsval attempt" where
  "verifier_fallback_attempt env msgs =
     try_block env msgs OpenRouter Smart (1 / 10) verifier_fallback_line"

definition verifier_fallback :: "env \<Rightarrow> prompt \<Rightarrow> js_error + jsval" where
  "verifier_fallback env msgs = fst (verifier_fallback_attempt env msgs)"

text \<open>
  The whole statement, the outer \<open>try\<close> with the inner one in its \<open>catch\<close>:
  its calls are those of the agent.
\<close>

definition verifier_attempt :: "env \<Rightarrow> prompt \<Rightarrow> jsval attempt" where
  "verifier_attempt env msgs =
     attempt_catch (verifier_primary_attempt env msgs) (verifier_fallback_attempt env msgs)"

definition answerVerifier :: "env \<Rightarrow> question \<Rightarrow> agent_run" where
  "answerVerifier env q =
     (let msgs = AnswerVerifierPrompt q;
          made = snd (verifier_attempt env msgs) in
      case verifier_primary env msgs of
        Inr res \<Rightarrow>
          \<lparr> kind = AnswerVerifier, result = res, started = [AVStart],
            finished = [verifier_line res], calls = made, thrown = None \<rparr>
      | Inl e \<Rightarrow>
          (case verifier_fallback env msgs of
             Inr res \<Rightarrow>
               \<lparr> kind = AnswerVerifier, result = res, started = [AVStart],
                 finished = [verifier_fallback_line res], calls = made, thrown = None \<rparr>
           | Inl e2 \<Rightarrow>
               \<lparr> kind = AnswerVerifier, result = answerVerifier_default e2,
                 started = [AVStart], finished = [AVFailed (message e2)], calls = made,
                 thrown = None \<rparr>))"

definition conflictAnalyzer_default :: "js_error \<Rightarrow> jsval" where
  "conflictAnalyzer_default e =
     JObj [(''resolution'', JStr ''genuinely_ambiguous''), (''finalRecommendedAnswer'', JStr ''?''),
           (''conflictType'', JStr ''unclear''), (''escalateToHuman'', JBool True),
           (''escalationReason'', JStr (message e))]"

text \<open>
  The prompt of the Conflict Analyzer interpolates the option and the verdict of the
  Answer Verifier. It is rendered before the \<open>try\<close> block, so a value with no string
  conversion makes the agent itself throw, after its first log line.
\<close>

definition analyzer_prompt :: "question \<Rightarrow> jsval \<Rightarrow> js_error + prompt" where
  "analyzer_prompt q answerResult =
     (if stringifies (get_prop answerResult ''correctAnswer'') \<and>
         stringifies (get_prop answerResult ''verdict'')
      then Inr (ConflictAnalyzerPrompt q (get_prop answerResult ''correctAnswer'')
                  (get_prop answerResult ''verdict''))
      else Inl unprintable)"

definition analyzer_line :: "jsval \<Rightarrow> log_line" where
  "analyzer_line res = CADone (get_prop res ''resolution'') (get_prop res ''conflictType'')"

definition conflictAnalyzer :: "env \<Rightarrow> question \<Rightarrow> jsval \<Rightarrow> agent_run" where
  "conflictAnalyzer env q answerResult =
     (case analyzer_prompt q answerResult of
        Inl e \<Rightarrow>
          \<lparr> kind = ConflictAnalyzer, result = JUndefined, started = [CAStart], finished = [],
            calls = [], thrown = Some e \<rparr>
      | Inr msgs \<Rightarrow>
          (case try_block env msgs Groq Smart (1 / 10) analyzer_line of
             (Inr res, made) \<Rightarrow>
               \<lparr> kind = ConflictAnalyzer, result = res, started = [CAStart],
                 finished = [analyzer_line res], calls = made, thrown = None \<rparr>
           | (Inl e, made) \<Rightarrow>
               \<lparr> kind = ConflictAnalyzer, result = conflictAnalyzer_default e,
                 started = [CAStart], finished = [CAFailed (message e)], calls = made,
                 thrown = None \<rparr>))"

definition difficultyRater_default :: "question \<Rightarrow> jsval" where
  "difficultyRater_default q =
     JObj [(''difficulty'', JStr (if q_difficulty q \<noteq> [] then q_difficulty q else ''Medium'')),
           (''reasoning'', JStr ''Agent failed''), (''currentRatingCorrect'', JBool True),
           (''suggestedChange'', JStr ''keep'')]"

definition rater_line :: "jsval \<Rightarrow> log_line" where
  "rater_line res = DRDone (get_prop res ''difficulty'') (get_prop res ''suggestedChange'')"

definition difficultyRater :: "env \<Rightarrow> question \<Rightarrow> agent_run" where
  "difficultyRater env q =
     (case try_block env (DifficultyRaterPrompt q) Groq Fast (1 / 10) rater_line of
        (Inr res, made) \<Rightarrow>
          \<lparr> kind = DifficultyRater, result = res, started = [DRStart],
            finished = [rater_line res], calls = made, thrown = None \<rparr>
      | (Inl e, made) \<Rightarrow>
          \<lparr> kind = DifficultyRater, result = difficultyRater_default q, started = [DRStart],
            finished = [DRFailed (message e)], calls = made, thrown = None \<rparr>)"

definition unitChecker_default :: "question \<Rightarrow> jsval" where
  "unitChecker_default q =
     JObj [(''belongsInUnit'', JBool True), (''confidence'', JStr ''low''),
           (''reasoning'', JStr ''Agent failed''), (''suggestedUnit'', JStr (q_unit q)),
           (''questionType'', JStr ''Static Question'')]"

definition checker_line :: "jsval \<Rightarrow> log_line" where
  "checker_line res = UCDone (get_prop res ''belongsInUnit'') (get_prop res ''suggestedUnit'')"

definition unitChecker :: "env \<Rightarrow> question \<Rightarrow> agent_run" where
  "unitChecker env q =
     (case try_block env (UnitCheckerPrompt q) Groq Fast (1 / 10) checker_line of
        (Inr res, made) \<Rightarrow>
          \<lparr> kind = UnitChecker, result = res, started = [UCStart],
            finished = [checker_line res], calls = made, thrown = None \<rparr>
      | (Inl e, made) \<Rightarrow>
          \<lparr> kind = UnitChecker, result = unitChecker_default q, started = [UCStart],
            finished = [UCFailed (message e)], calls = made, thrown = None \<rparr>)"

text \<open>\<open>question.finalExplanation || question.feedback || ''\<close>.\<close>

definition explanation_of :: "question \<Rightarrow> string" where
  "explanation_of q =
     (if q_finalExplanation q \<noteq> [] then q_finalExplanation q
      else if q_feedback q \<noteq> [] then q_feedback q
      else [])"

definition explanationCritic_missing :: jsval where
  "explanationCritic_missing =
     JObj [(''quality'', JStr ''Missing''), (''score'', JNum 0),
           (''missingElements'', JArr [JStr ''Full explanation needed'']),
           (''improvementSuggestion'',
            JStr ''No explanation exists - needs to be written from scratch''),
           (''needsCalculation'', JBool False)]"

definition explanationCritic_default :: jsval where
  "explanationCritic_default =
     JObj [(''quality'', JStr ''Unknown''), (''score'', JNum 5), (''missingElements'', JArr []),
           (''improvementSuggestion'', JStr ''Agent failed - manual review needed''),
           (''needsCalculation'', JBool False)]"

text \<open>
  Without an explanation the Explanation Critic returns before its first \<open>await\<close>:
  both of its lines are logged at once and it calls nothing. (The dash of the two
  suggestion texts is a code unit above 255 in the source and is written \<open>-\<close> here.)
\<close>

definition critic_line :: "jsval \<Rightarrow> log_line" where
  "critic_line res = ECDone (get_prop res ''quality'') (get_prop res ''score'')"

definition explanationCritic :: "env \<Rightarrow> question \<Rightarrow> agent_run" where
  "explanationCritic env q =
     (let explanation = explanation_of q in
      if explanation = []
      then \<lparr> kind = ExplanationCritic, result = explanationCritic_missing,
             started = [ECStart, ECMissing], finished = [], calls = [], thrown = None \<rparr>
      else (case try_block env (ExplanationCriticPrompt q explanation) Groq Smart (1 / 10)
                   critic_line of
              (Inr res, made) \<Rightarrow>
                \<lparr> kind = ExplanationCritic, result = res, started = [ECStart],
                  finished = [critic_line res], calls = made, thrown = None \<rparr>
            | (Inl e, made) \<Rightarrow>
                \<lparr> kind = ExplanationCritic, result = explanationCritic_default,
                  started = [ECStart], finished = [ECFailed (message e)], calls = made,
                  thrown = None \<rparr>))"

definition memoryTrickGenerator_default :: jsval where
  "memoryTrickGenerator_default =
     JObj [(''memoryTrick'', JStr []), (''type'', JStr ''none''), (''keyConceptSummary'', JStr [])]"

definition trick_line :: "jsval \<Rightarrow> log_line" where
  "trick_line res = MTDone (get_prop res ''type'') (get_prop res ''memoryTrick'')"

definition memoryTrickGenerator :: "env \<Rightarrow> question \<Rightarrow> agent_run" where
  "memoryTrickGenerator env q =
     (case try_block env (MemoryTrickPrompt q) Groq Fast (7 / 10) trick_line of
        (Inr res, made) \<Rightarrow>
          \<lparr> kind = MemoryTrickGenerator, result = res, started = [MTStart],
            finished = [trick_line res], calls = made, thrown = None \<rparr>
      | (Inl e, made) \<Rightarrow>
          \<lparr> kind = MemoryTrickGenerator, result = memoryTrickGenerator_default,
            started = [MTStart], finished = [MTFailed (message e)], calls = made,
            thrown = None \<rparr>)"

definition calculationChecker_default :: jsval where
  "calculationChecker_default =
     JObj [(''requiresCalculation'', JBool False), (''calculationSteps'', JStr []),
           (''thresholdsInvolved'', JArr []), (''formulaUsed'', JStr [])]"

definition calculation_line :: "jsval \<Rightarrow> log_line" where
  "calculation_line res = CCDone (get_prop res ''requiresCalculation'')"

definition calculationChecker :: "env \<Rightarrow> question \<Rightarrow> agent_run" where
  "calculationChecker env q =
     (case try_block env (CalculationCheckerPrompt q) Groq Fast (1 / 10) calculation_line of
        (Inr res, made) \<Rightarrow>
          \<lparr> kind = CalculationChecker, result = res, started = [CCStart],
            finished = [calculation_line res], calls = made, thrown = None \<rparr>
      | (Inl e, made) \<Rightarrow>
          \<lparr> kind = CalculationChecker, result = calculationChecker_default,
            started = [CCStart], finished = [CCFailed (message e)], calls = made,
            thrown = None \<rparr>)"

section \<open>The main review function\<close>

text \<open>The parts of the query summary, joined with a bar in the source.\<close>

datatype query_part =
    HumanReviewNeeded jsval
  | AnswerConflict jsval jsval
  | DifficultyChange jsval
  | UnitMismatch jsval
  | ExplanationNotice jsval
  | AddCalculation jsval
  | KeptAsIs
  | SystemErrorNotice string

text \<open>
  The object \<open>reviewQuestion\<close> returns. A property the returned object does not have
  reads as \<open>undefined\<close> (\<open>None\<close> for the plan and for the two joined lists).
\<close>

record review_result =
  status :: string
  needsHuman :: jsval
  hasConflict :: bool
  elapsed :: jsval
  agentLog :: "log_line list"
  plan :: "plan option"
  finalAnswer :: jsval
  correctAnswer :: jsval
  answerVerdict :: jsval
  answerConfidence :: jsval
  answerReasoning :: jsval
  conflictType :: jsval
  conflictExplanation :: jsval
  difficulty :: jsval
  difficultyReasoning :: jsval
  difficultyChanged :: jsval
  unitMatch :: jsval
  suggestedUnit :: jsval
  questionType :: jsval
  yearDependentReason :: jsval
  explanationQuality :: jsval
  explanationScore :: jsval
  explanationImprovements :: "jsval list option"
  explanationSuggestion :: jsval
  needsCalculation :: jsval
  calculationSteps :: jsval
  thresholds :: "jsval list option"
  memoryTrick :: jsval
  memoryType :: jsval
  keyConceptSummary :: jsval
  queries :: "query_part list"

text \<open>
  \<open>await Promise.all([...])\<close> over agent calls. Each call runs up to its first
  \<open>await\<close> when the array is built, in the order of the array.
  \<^item> When no agent throws, the rest of each run is logged when its last call settles,
    and the results are handed over (\<open>stage_log\<close>).
  \<^item> An agent that throws does so before its first \<open>await\<close>, so its promise is
    rejected when the array is built, and \<open>Promise.all\<close> rejects with that error
    (\<open>rejection\<close>). The other agents of the array were called all the same. Those that
    never reach the network, because every \<open>callLLM\<close> of theirs throws on the
    credential, resume and log their last line before the rejection reaches
    \<open>reviewQuestion\<close>; those that wait for the network (\<open>waits\<close>) have not logged
    theirs yet when the \<open>catch\<close> block runs and \<open>reviewQuestion\<close> returns
    (\<open>stage_log_rejected\<close>).
\<close>

definition stage_log :: "env \<Rightarrow> agent_run list \<Rightarrow> log_line list" where
  "stage_log env runs =
     concat (map started runs) @
     concat (map finished (sort_key (\<lambda>r. finished_at env (kind r)) runs))"

fun rejection :: "agent_run list \<Rightarrow> js_error option" where
  "rejection [] = None"
| "rejection (r # rs) = (case thrown r of Some e \<Rightarrow> Some e | None \<Rightarrow> rejection rs)"

definition waits :: "env \<Rightarrow> agent_run \<Rightarrow> bool" where
  "waits env r = list_ex (\<lambda>c. usable_key env (fst c) \<noteq> None) (calls r)"

definition stage_log_rejected :: "env \<Rightarrow> agent_run list \<Rightarrow> log_line list" where
  "stage_log_rejected env runs =
     concat (map started runs) @
     concat (map finished (filter (\<lambda>r. \<not> waits env r) runs))"

definition await_all :: "env \<Rightarrow> agent_run list \<Rightarrow> log_line list \<times> js_error option" where
  "await_all env runs =
     (case rejection runs of
        None \<Rightarrow> (stage_log env runs, None)
      | Some e \<Rightarrow> (stage_log_rejected env runs, Some e))"

text \<open>\<open>cond ? agent(...) : Promise.resolve(null)\<close>, and the value it resolves to.\<close>

definition run_if :: "bool \<Rightarrow> agent_run \<Rightarrow> agent_run option" where
  "run_if c r = (if c then Some r else None)"

definition result_of :: "agent_run option \<Rightarrow> jsval" where
  "result_of r = (case r of None \<Rightarrow> JNull | Some a \<Rightarrow> result a)"

fun ran :: "agent_run option list \<Rightarrow> agent_run list" where
  "ran [] = []"
| "ran (None # rs) = ran rs"
| "ran (Some r # rs) = r # ran rs"

text \<open>\<open>agentSet.has(name)\<close> for \<open>agentSet = new Set(plan.agents)\<close>.\<close>

definition has_agent :: "plan \<Rightarrow> string \<Rightarrow> bool" where
  "has_agent p name = (JStr name \<in> set (agents p))"

text \<open>
  \<open>x?.join(sep)\<close>: \<open>undefined\<close> for a nullish \<open>x\<close>; for an array the joined
  elements, or a throw when one of them has no string conversion; and a throw for
  anything else, which has no \<open>join\<close> to call.
\<close>

definition join_opt :: "string \<Rightarrow> jsval \<Rightarrow> js_error + jsval list option" where
  "join_opt expr x =
     (case x of
        JUndefined \<Rightarrow> Inr None
      | JNull \<Rightarrow> Inr None
      | JArr xs \<Rightarrow> if list_all stringifies xs then Inr (Some xs) else Inl unprintable
      | _ \<Rightarrow> Inl (TypeError (expr @ '' is not a function'')))"

text \<open>The constants of step 3 and step 4, named as in the source.\<close>

definition hasConflict_of :: "question \<Rightarrow> jsval \<Rightarrow> bool" where
  "hasConflict_of q answerResult =
     (q_rightOption q \<noteq> q_aiAnswer q \<or> q_rightOption q \<noteq> q_finalAnswer q \<or>
      get_prop answerResult ''verdict'' = JStr ''uncertain'')"

definition finalAnswer_of :: "question \<Rightarrow> jsval \<Rightarrow> jsval \<Rightarrow> jsval" where
  "finalAnswer_of q answerResult conflictResult =
     js_or (js_or (js_or (get_prop conflictResult ''finalRecommendedAnswer'')
                         (get_prop answerResult ''correctAnswer''))
                  (JStr (q_finalAnswer q)))
           (JStr (q_rightOption q))"

definition needsHuman_of :: "jsval \<Rightarrow> jsval \<Rightarrow> jsval" where
  "needsHuman_of answerResult conflictResult =
     js_or (js_or (js_or (get_prop answerResult ''needsHumanReview'')
                         (get_prop conflictResult ''escalateToHuman''))
                  (JBool (get_prop answerResult ''confidence'' = JStr ''low'')))
           (JBool (get_prop answerResult ''verdict'' = JStr ''uncertain''))"

definition queryParts_of ::
  "jsval \<Rightarrow> bool \<Rightarrow> jsval \<Rightarrow> jsval \<Rightarrow> jsval \<Rightarrow> jsval \<Rightarrow> jsval \<Rightarrow> jsval \<Rightarrow> query_part list" where
  "queryParts_of needs conflict answerResult conflictResult difficultyResult unitResult
       explanationResult calcResult =
     (let parts =
        (if truthy needs
         then [HumanReviewNeeded
                 (js_or (js_or (get_prop answerResult ''humanReviewReason'')
                               (get_prop conflictResult ''escalationReason''))
                        (JStr ''Uncertain answer''))]
         else []) @
        (if truthy conflictResult \<and> conflict
         then [AnswerConflict (get_prop conflictResult ''conflictType'')
                 (get_prop conflictResult ''explanation'')]
         else []) @
        (if truthy difficultyResult \<and> \<not> truthy (get_prop difficultyResult ''currentRatingCorrect'')
         then [DifficultyChange (get_prop difficultyResult ''difficulty'')]
         else []) @
        (if \<not> truthy (get_prop unitResult ''belongsInUnit'')
         then [UnitMismatch (get_prop unitResult ''suggestedUnit'')]
         else []) @
        (if get_prop explanationResult ''quality'' = JStr ''Needs Improvement'' \<or>
            get_prop explanationResult ''quality'' = JStr ''Poor''
         then [ExplanationNotice (get_prop explanationResult ''improvementSuggestion'')]
         else []) @
        (if truthy (get_prop calcResult ''requiresCalculation'')
         then [AddCalculation (get_prop calcResult ''calculationSteps'')]
         else [])
      in if parts = [] then [KeptAsIs] else parts)"

text \<open>
  The values a part of the query summary converts to strings, and the summary as the
  \<open>push\<close> statements build it: the template of a part is rendered when the part is
  pushed, so the first value with no string conversion throws.
\<close>

fun part_values :: "query_part \<Rightarrow> jsval list" where
  "part_values (HumanReviewNeeded v) = [v]"
| "part_values (AnswerConflict t e) = [t, e]"
| "part_values (DifficultyChange d) = [d]"
| "part_values (UnitMismatch u) = [u]"
| "part_values (ExplanationNotice s) = [s]"
| "part_values (AddCalculation c) = [c]"
| "part_values p = []"

definition pushed :: "query_part list \<Rightarrow> js_error + query_part list" where
  "pushed parts =
     (if list_all (\<lambda>p. list_all stringifies (part_values p)) parts then Inr parts
      else Inl unprintable)"

text \<open>
  Steps 1 to 3 of the \<open>try\<close> block of \<open>reviewQuestion\<close>: the plan, the runs of
  the first stage, the runs of the second stage (\<open>None\<close> for an agent that is not
  called), the log they leave, and the error an \<open>await\<close> of the two stages throws
  (\<open>aborted\<close>). The second stage is not reached when the first one throws.
\<close>

record pipeline =
  plan_used :: plan
  av_run :: "agent_run option"
  dr_run :: "agent_run option"
  uc_run :: "agent_run option"
  ca_run :: "agent_run option"
  ec_run :: "agent_run option"
  mt_run :: "agent_run option"
  cc_run :: "agent_run option"
  stage_lines :: "log_line list"
  aborted :: "js_error option"

definition run_agents :: "env \<Rightarrow> question \<Rightarrow> pipeline" where
  "run_agents env q =
     (let (pl, log0) = orchestrate env q;
          av = run_if (has_agent pl ''answer_verifier'') (answerVerifier env q);
          dr = run_if (has_agent pl ''difficulty_rater'') (difficultyRater env q);
          uc = run_if (has_agent pl ''unit_checker'') (unitChecker env q);
          (lines1, rejected1) = await_all env (ran [av, dr, uc]);
          log1 = log0 @ lines1
      in case rejected1 of
           Some e \<Rightarrow>
             \<lparr> plan_used = pl, av_run = av, dr_run = dr, uc_run = uc, ca_run = None,
               ec_run = None, mt_run = None, cc_run = None, stage_lines = log1,
               aborted = Some e \<rparr>
         | None \<Rightarrow>
             (let answerResult = result_of av;
                  conflict = hasConflict_of q answerResult;
                  ca = run_if ((has_agent pl ''conflict_analyzer'' \<or> conflict) \<and>
                               truthy answerResult)
                         (conflictAnalyzer env q answerResult);
                  ec = run_if (has_agent pl ''explanation_critic'') (explanationCritic env q);
                  mt = run_if (has_agent pl ''memory_trick_generator'')
                         (memoryTrickGenerator env q);
                  cc = run_if (has_agent pl ''calculation_checker'' \<or> truthy (isNumerical pl))
                         (calculationChecker env q);
                  (lines2, rejected2) = await_all env (ran [ca, ec, mt, cc])
              in \<lparr> plan_used = pl, av_run = av, dr_run = dr, uc_run = uc, ca_run = ca,
                   ec_run = ec, mt_run = mt, cc_run = cc, stage_lines = log1 @ lines2,
                   aborted = rejected2 \<rparr>))"

text \<open>
  The \<open>try\<close> block of \<open>reviewQuestion\<close>: the log as it stands when the block is
  left, and the returned object or the error thrown. After step 3 the block pushes the
  line of completion, builds the query summary, then the returned object, whose
  properties are evaluated in order, so a throw of the first \<open>join\<close> comes before the
  second. The log is the content of the array \<open>agentLog\<close> at that moment: an agent
  that is still waiting for the network when a stage is rejected pushes its last line
  later.
\<close>

definition review_try :: "env \<Rightarrow> question \<Rightarrow> log_line list \<times> (js_error + review_result)" where
  "review_try env q =
     (let p = run_agents env q
      in case aborted p of
           Some e \<Rightarrow> (stage_lines p, Inl e)
         | None \<Rightarrow>
     (let pl = plan_used p;
          answerResult = result_of (av_run p);
          difficultyResult = result_of (dr_run p);
          unitResult = result_of (uc_run p);
          conflict = hasConflict_of q answerResult;
          conflictResult = result_of (ca_run p);
          explanationResult = result_of (ec_run p);
          memoryResult = result_of (mt_run p);
          calcResult = result_of (cc_run p);
          needs = needsHuman_of answerResult conflictResult;
          log3 = stage_lines p @ [CompleteLine (elapsed_text env) (length (agents pl))]
      in (log3,
          then_try (pushed (queryParts_of needs conflict answerResult conflictResult
                              difficultyResult unitResult explanationResult calcResult))
            (\<lambda>queryParts.
          then_try (join_opt ''explanationResult?.missingElements?.join''
                      (get_prop explanationResult ''missingElements''))
            (\<lambda>improvements.
               then_try (join_opt ''calcResult?.thresholdsInvolved?.join''
                           (get_prop calcResult ''thresholdsInvolved''))
                 (\<lambda>thresholdList.
                    Inr \<lparr> status = ''done'',
                          needsHuman = needs,
                          hasConflict = conflict,
                          elapsed = JStr (elapsed_text env),
                          agentLog = log3,
                          plan = Some pl,
                          finalAnswer = finalAnswer_of q answerResult conflictResult,
                          correctAnswer = get_prop answerResult ''correctAnswer'',
                          answerVerdict = get_prop answerResult ''verdict'',
                          answerConfidence = get_prop answerResult ''confidence'',
                          answerReasoning = get_prop answerResult ''reasoning'',
                          conflictType = get_prop conflictResult ''conflictType'',
                          conflictExplanation = get_prop conflictResult ''explanation'',
                          difficulty = js_or (get_prop difficultyResult ''difficulty'')
                                         (JStr (q_difficulty q)),
                          difficultyReasoning = get_prop difficultyResult ''reasoning'',
                          difficultyChanged =
                            JBool (truthy difficultyResult \<and>
                                   \<not> truthy (get_prop difficultyResult ''currentRatingCorrect'')),
                          unitMatch = get_prop unitResult ''belongsInUnit'',
                          suggestedUnit = get_prop unitResult ''suggestedUnit'',
                          questionType = js_or (get_prop unitResult ''questionType'')
                                           (JStr (q_category q)),
                          yearDependentReason = get_prop unitResult ''yearDependentReason'',
                          explanationQuality = get_prop explanationResult ''quality'',
                          explanationScore = get_prop explanationResult ''score'',
                          explanationImprovements = improvements,
                          explanationSuggestion =
                            get_prop explanationResult ''improvementSuggestion'',
                          needsCalculation = get_prop calcResult ''requiresCalculation'',
                          calculationSteps = get_prop calcResult ''calculationSteps'',
                          thresholds = thresholdList,
                          memoryTrick = get_prop memoryResult ''memoryTrick'',
                          memoryType = get_prop memoryResult ''type'',
                          keyConceptSummary = get_prop memoryResult ''keyConceptSummary'',
                          queries = queryParts
                        \<rparr>))))))"

text \<open>The object of the \<open>catch\<close> block.\<close>

definition error_result :: "question \<Rightarrow> log_line list \<Rightarrow> js_error \<Rightarrow> review_result" where
  "error_result q entries e =
     \<lparr> status = ''error'',
       needsHuman = JBool True,
       hasConflict = False,
       elapsed = JUndefined,
       agentLog = entries @ [SystemErrorLine (message e)],
       plan = None,
       finalAnswer = js_or (JStr (q_finalAnswer q)) (JStr (q_rightOption q)),
       correctAnswer = JUndefined,
       answerVerdict = JUndefined,
       answerConfidence = JUndefined,
       answerReasoning = JUndefined,
       conflictType = JUndefined,
       conflictExplanation = JUndefined,
       difficulty = JStr (q_difficulty q),
       difficultyReasoning = JUndefined,
       difficultyChanged = JUndefined,
       unitMatch = JUndefined,
       suggestedUnit = JUndefined,
       questionType = JUndefined,
       yearDependentReason = JUndefined,
       explanationQuality = JUndefined,
       explanationScore = JUndefined,
       explanationImprovements = None,
       explanationSuggestion = JUndefined,
       needsCalculation = JUndefined,
       calculationSteps = JUndefined,
       thresholds = None,
       memoryTrick = JUndefined,
       memoryType = JUndefined,
       keyConceptSummary = JUndefined,
       queries = [SystemErrorNotice (message e)] \<rparr>"

text \<open>
  \<open>reviewQuestion\<close> as its caller sees it: \<open>Inl\<close> would be a rejected promise, an
  error that leaves the function.
\<close>

definition reviewQuestion :: "env \<Rightarrow> question \<Rightarrow> js_error + review_result" where
  "reviewQuestion env q =
     (case review_try env q of
        (entries, Inr r) \<Rightarrow> Inr r
      | (entries, Inl e) \<Rightarrow> Inr (error_result q entries e))"

section \<open>The batch endpoint of server.js\<close>

text \<open>
  The handler of \<^verbatim>\<open>POST /api/review-all\<close>. \<open>sendEvent\<close> writes one event to the
  response; the events written, in order, and the array \<open>results\<close> are the state of
  the loop. An entry of \<open>results\<close> is the review result with its index, or, from the
  \<open>catch\<close> of the loop, the object with \<open>status: 'error'\<close>, \<open>needsHuman: true\<close>
  and the message of the error in \<open>queries\<close>.
\<close>

datatype batch_entry =
    ResultEntry nat review_result
  | ErrorEntry nat string

fun entry_index :: "batch_entry \<Rightarrow> nat" where
  "entry_index (ResultEntry i r) = i"
| "entry_index (ErrorEntry i m) = i"

fun entry_status :: "batch_entry \<Rightarrow> string" where
  "entry_status (ResultEntry i r) = status r"
| "entry_status (ErrorEntry i m) = ''error''"

datatype sse_event =
    StartEvent nat
  | ProgressEvent nat string string
  | LogEvent nat log_line
  | QuestionDoneEvent nat review_result
  | QuestionErrorEvent nat string
  | CompleteEvent nat "batch_entry list"

record batch_state =
  written :: "sse_event list"
  results :: "batch_entry list"

text \<open>
  The body of the loop for the question at index \<open>i\<close>. The review function is a
  parameter, with the index for what the outside world answers during that review; the
  pause between two questions is not modelled.
\<close>

definition review_step ::
  "(nat \<Rightarrow> question \<Rightarrow> js_error + review_result) \<Rightarrow> question \<Rightarrow> nat \<Rightarrow> batch_state \<Rightarrow> batch_state" where
  "review_step review q i st =
     (let progress = written st @ [ProgressEvent i (q_code q) (take 80 (q_question q))] in
      case review i q of
        Inr r \<Rightarrow>
          \<lparr> written = progress @ map (LogEvent i) (agentLog r) @ [QuestionDoneEvent i r],
            results = results st @ [ResultEntry i r] \<rparr>
      | Inl e \<Rightarrow>
          \<lparr> written = progress @ [QuestionErrorEvent i (message e)],
            results = results st @ [ErrorEntry i (message e)] \<rparr>)"

function review_loop ::
  "(nat \<Rightarrow> question \<Rightarrow> js_error + review_result) \<Rightarrow> question list \<Rightarrow> nat \<Rightarrow> batch_state \<Rightarrow> batch_state" where
  "review_loop review questions i st =
     (if i < length questions
      then review_loop review questions (Suc i) (review_step review (questions ! i) i st)
      else st)"
  by pat_completeness auto
termination
  by (relation "measure (\<lambda>(review, questions, i, st). length questions - i)") auto

datatype http_response = BadRequest string | EventStream "sse_event list"

definition review_all ::
  "(nat \<Rightarrow> question \<Rightarrow> js_error + review_result) \<Rightarrow> question list \<Rightarrow> http_response" where
  "review_all review questions =
     (if questions = [] then BadRequest ''No questions provided''
      else (let st = review_loop review questions 0
                       \<lparr> written = [StartEvent (length questions)], results = [] \<rparr>
            in EventStream (written st @ [CompleteEvent (length questions) (results st)])))"

section \<open>The priority order of the final answer, as the specification words it\<close>

text \<open>
  The specification's reading of "produced one": the agent ran and gave a usable answer,
  the placeholder of a default being treated as absent. These two definitions follow
  the specification, not the code, and are compared with \<open>finalAnswer_of\<close>.
\<close>

definition usable_answer :: "jsval \<Rightarrow> bool" where
  "usable_answer v = (truthy v \<and> v \<noteq> JStr ''?'')"

definition finalAnswer_by_priority :: "question \<Rightarrow> jsval \<Rightarrow> jsval \<Rightarrow> jsval" where
  "finalAnswer_by_priority q answerResult conflictResult =
     (if usable_answer (get_prop conflictResult ''finalRecommendedAnswer'')
      then get_prop conflictResult ''finalRecommendedAnswer''
      else if usable_answer (get_prop answerResult ''correctAnswer'')
      then get_prop answerResult ''correctAnswer''
      else if q_finalAnswer q \<noteq> [] then JStr (q_finalAnswer q)
      else JStr (q_rightOption q))"

section \<open>Concrete environments and questions\<close>

text \<open>A question on a threshold in dollars, with no explanation, whose answers differ.\<close>

definition threshold_question :: question where
  "threshold_question =
     \<lparr> q_code = ''E2-001'', q_chapter = ''Business'', q_unit = ''Corporations'',
       q_question = ''Which form reports assets of $10 million or more?'',
       q_optionA = ''Schedule M-3'', q_optionB = ''Schedule C'', q_optionC = ''Form 1040'',
       q_optionD = ''Form 709'', q_rightOption = ''A'', q_feedback = [], q_aiAnswer = ''B'',
       q_finalAnswer = ''A'', q_finalExplanation = [], q_difficulty = ''Medium'',
       q_category = ''Static Question'', q_queries = [] \<rparr>"

text \<open>The same question with an explanation, and with the three answers agreeing.\<close>

definition explained_question :: question where
  "explained_question =
     threshold_question \<lparr> q_aiAnswer := ''A'', q_finalExplanation := ''See Schedule M-3.'' \<rparr>"

text \<open>No credential is configured: every inference call throws before the network.\<close>

definition env_offline :: env where
  "env_offline =
     \<lparr> getKey = (\<lambda>p. None),
       fetch = (\<lambda>r. FetchRejected (TypeError ''fetch failed'')),
       JSON_parse = (\<lambda>s. Inl (SyntaxError ''Unexpected end of JSON input'')),
       elapsed_text = ''0.0'',
       finished_at = (\<lambda>k. 0) \<rparr>"

text \<open>A successful chat completion whose content is the given text.\<close>

definition chat_completion :: "string \<Rightarrow> fetch_outcome" where
  "chat_completion text =
     Fetched \<lparr> res_ok = True, res_status = 200, res_text = Inr [],
               res_json = Inr (JObj [(''choices'',
                 JArr [JObj [(''message'', JObj [(''content'', JStr text)])]])]) \<rparr>"

text \<open>
  An environment with credentials whose network answers one template with a given text
  and rejects every other request; \<open>JSON_parse\<close> decodes that one text as
  \<open>JSON.parse\<close> does and throws on anything else.
\<close>

definition env_scripted :: "(prompt \<Rightarrow> bool) \<Rightarrow> string \<Rightarrow> (string \<times> jsval) list \<Rightarrow> env" where
  "env_scripted answered text decoded =
     \<lparr> getKey = (\<lambda>p. Some ''gsk_live''),
       fetch = (\<lambda>r. if answered (messages r) then chat_completion text
                      else FetchRejected (TypeError ''fetch failed'')),
       JSON_parse = (\<lambda>s. if s = text then Inr decoded
                           else Inl (SyntaxError ''Unexpected token'')),
       elapsed_text = ''1.5'',
       finished_at = (\<lambda>k. 0) \<rparr>"

fun is_orchestrator_prompt :: "prompt \<Rightarrow> bool" where
  "is_orchestrator_prompt (OrchestratorPrompt q) = True"
| "is_orchestrator_prompt p = False"

fun is_verifier_prompt :: "prompt \<Rightarrow> bool" where
  "is_verifier_prompt (AnswerVerifierPrompt q) = True"
| "is_verifier_prompt p = False"

fun is_critic_prompt :: "prompt \<Rightarrow> bool" where
  "is_critic_prompt (ExplanationCriticPrompt q e) = True"
| "is_critic_prompt p = False"

text \<open>The planner answers with a plan of one agent that is not marked numeric.\<close>

definition env_planned :: env where
  \<open>env_planned =
     env_scripted is_orchestrator_prompt ''{"agents":["difficulty_rater"],"isNumerical":false}''
       [(''agents'', JArr [JStr ''difficulty_rater'']), (''isNumerical'', JBool False)]\<close>

text \<open>Only the Answer Verifier is answered: it chooses option B.\<close>

definition env_verified :: env where
  \<open>env_verified =
     env_scripted is_verifier_prompt ''{"correctAnswer":"B","verdict":"ai_correct"}''
       [(''correctAnswer'', JStr ''B''), (''verdict'', JStr ''ai_correct'')]\<close>

text \<open>Only the Explanation Critic is answered, with a text where a list is expected.\<close>

definition env_critic :: env where
  \<open>env_critic =
     env_scripted is_critic_prompt ''{"quality":"Good","missingElements":"none"}''
       [(''quality'', JStr ''Good''), (''missingElements'', JStr ''none'')]\<close>

text \<open>
  Only the Answer Verifier is answered: it asks for a human review and gives an object
  where the reason is expected. The object has a property \<open>toString\<close>, so it has no
  string conversion.
\<close>

definition env_escalated :: env where
  \<open>env_escalated =
     env_scripted is_verifier_prompt
       ''{"needsHumanReview":true,"humanReviewReason":{"toString":1}}''
       [(''needsHumanReview'', JBool True),
        (''humanReviewReason'', JObj [(''toString'', JNum 1)])]\<close>

text \<open>Only the Answer Verifier is answered: it chooses option B, with such an object as its verdict.\<close>

definition env_unprintable_verdict :: env where
  \<open>env_unprintable_verdict =
     env_scripted is_verifier_prompt ''{"correctAnswer":"B","verdict":{"toString":1}}''
       [(''correctAnswer'', JStr ''B''), (''verdict'', JObj [(''toString'', JNum 1)])]\<close>

text \<open>The planner answers with a plan of one agent that is marked numeric.\<close>

definition env_numeric_plan :: env where
  \<open>env_numeric_plan =
     env_scripted is_orchestrator_prompt ''{"agents":["difficulty_rater"],"isNumerical":true}''
       [(''agents'', JArr [JStr ''difficulty_rater'']), (''isNumerical'', JBool True)]\<close>

text \<open>
  The planner answers with a plan that is not marked numeric and whose reasoning is an
  object with no string conversion, so the log line of the plan cannot be rendered.
\<close>

definition env_unprintable_plan :: env where
  \<open>env_unprintable_plan =
     env_scripted is_orchestrator_prompt
       ''{"agents":["difficulty_rater"],"reasoning":{"toString":1},"isNumerical":false}''
       [(''agents'', JArr [JStr ''difficulty_rater'']),
        (''reasoning'', JObj [(''toString'', JNum 1)]), (''isNumerical'', JBool False)]\<close>

text \<open>The inference calls of a run after its first one.\<close>

definition fallback_hops :: "agent_run \<Rightarrow> nat" where
  "fallback_hops r = length (calls r) - 1"

text \<open>The events the body of the loop writes for one question.\<close>

definition question_events ::
  "(nat \<Rightarrow> question \<Rightarrow> js_error + review_result) \<Rightarrow> question \<Rightarrow> nat \<Rightarrow> sse_event list" where
  "question_events review q i = written (review_step review q i \<lparr> written = [], results = [] \<rparr>)"

text \<open>A review function that throws on the first question of a batch only.\<close>

definition flaky_review :: "nat \<Rightarrow> question \<Rightarrow> js_error + review_result" where
  "flaky_review i q =
     (if i = 0 then Inl (Error ''socket hang up'') else reviewQuestion env_offline q)"

section \<open>A response wrapped in a fence, after a reasoning block\<close>

text \<open>
  The text in a fenced code block with the given tag (none, or \<open>json\<close>), and a
  text with a reasoning block in front of it, between the opening and the closing
  marker.
\<close>

definition fenced :: "string \<Rightarrow> string \<Rightarrow> string" where
  "fenced tag t = ''```'' @ tag @ [nl] @ t @ [nl] @ ''```''"

definition with_reasoning :: "string \<Rightarrow> string \<Rightarrow> string" where
  "with_reasoning thought s = ''<think>'' @ thought @ ''</think>'' @ s"

text \<open>An environment whose \<open>JSON_parse\<close> decodes one verdict and nothing else.\<close>

definition env_decoding :: env where
  \<open>env_decoding =
     env_scripted (\<lambda>p. False) ''{"verdict":"uncertain"}'' [(''verdict'', JStr ''uncertain'')]\<close>

section \<open>Facts about the pipeline\<close>

lemma set_stage_log:
  "set (stage_log env runs) = (\<Union>r\<in>set runs. set (started r) \<union> set (finished r))"
  by (auto simp: stage_log_def)

lemma set_stage_log_rejected:
  "(\<Union>r\<in>set runs. set (started r)) \<subseteq> set (stage_log_rejected env runs)"
  "set (stage_log_rejected env runs) \<subseteq> (\<Union>r\<in>set runs. set (started r) \<union> set (finished r))"
  by (auto simp: stage_log_rejected_def)

lemma set_await_all:
  "(\<Union>r\<in>set runs. set (started r)) \<subseteq> set (fst (await_all env runs))"
  "set (fst (await_all env runs)) \<subseteq> (\<Union>r\<in>set runs. set (started r) \<union> set (finished r))"
  using set_stage_log_rejected[where runs = runs and env = env]
  by (auto simp: await_all_def set_stage_log split: option.splits)

lemma await_all_settled: "rejection runs = None \<Longrightarrow> await_all env runs = (stage_log env runs, None)"
  by (simp add: await_all_def)

lemma snd_await_all: "snd (await_all env runs) = rejection runs"
  by (simp add: await_all_def split: option.splits)

lemma answerVerifier_settles: "thrown (answerVerifier env q) = None"
  by (simp add: answerVerifier_def Let_def split: sum.splits)

lemma difficultyRater_settles: "thrown (difficultyRater env q) = None"
  by (simp add: difficultyRater_def split: prod.splits sum.splits)

lemma unitChecker_settles: "thrown (unitChecker env q) = None"
  by (simp add: unitChecker_def split: prod.splits sum.splits)

lemma explanationCritic_settles: "thrown (explanationCritic env q) = None"
  by (simp add: explanationCritic_def Let_def split: prod.splits sum.splits)

lemma memoryTrickGenerator_settles: "thrown (memoryTrickGenerator env q) = None"
  by (simp add: memoryTrickGenerator_def split: prod.splits sum.splits)

lemma calculationChecker_settles: "thrown (calculationChecker env q) = None"
  by (simp add: calculationChecker_def split: prod.splits sum.splits)

lemma first_stage_settles:
  "rejection (ran [run_if a (answerVerifier env q), run_if b (difficultyRater env q),
                   run_if c (unitChecker env q)]) = None"
  by (simp add: run_if_def answerVerifier_settles difficultyRater_settles unitChecker_settles)

lemma second_stage_rejection:
  "rejection (ran [ca, run_if a (explanationCritic env q), run_if b (memoryTrickGenerator env q),
                   run_if c (calculationChecker env q)]) =
     (case ca of None \<Rightarrow> None | Some r \<Rightarrow> thrown r)"
  by (simp add: run_if_def explanationCritic_settles memoryTrickGenerator_settles
      calculationChecker_settles split: option.splits)

lemma run_agents_unfold:
  "run_agents env q =
     (let pl = fst (orchestrate env q);
          av = run_if (has_agent pl ''answer_verifier'') (answerVerifier env q);
          dr = run_if (has_agent pl ''difficulty_rater'') (difficultyRater env q);
          uc = run_if (has_agent pl ''unit_checker'') (unitChecker env q);
          ca = run_if ((has_agent pl ''conflict_analyzer'' \<or> hasConflict_of q (result_of av)) \<and>
                       truthy (result_of av))
                 (conflictAnalyzer env q (result_of av));
          ec = run_if (has_agent pl ''explanation_critic'') (explanationCritic env q);
          mt = run_if (has_agent pl ''memory_trick_generator'') (memoryTrickGenerator env q);
          cc = run_if (has_agent pl ''calculation_checker'' \<or> truthy (isNumerical pl))
                 (calculationChecker env q)
      in \<lparr> plan_used = pl, av_run = av, dr_run = dr, uc_run = uc, ca_run = ca, ec_run = ec,
           mt_run = mt, cc_run = cc,
           stage_lines = snd (orchestrate env q) @ stage_log env (ran [av, dr, uc]) @
                         fst (await_all env (ran [ca, ec, mt, cc])),
           aborted = (case ca of None \<Rightarrow> None | Some r \<Rightarrow> thrown r) \<rparr>)"
  by (simp add: run_agents_def Let_def case_prod_beta await_all_settled[OF first_stage_settles]
      first_stage_settles snd_await_all second_stage_rejection)

lemma run_agents_plan: "plan_used (run_agents env q) = fst (orchestrate env q)"
  by (simp add: run_agents_unfold Let_def)

lemma run_agents_av:
  "av_run (run_agents env q) =
     run_if (has_agent (plan_used (run_agents env q)) ''answer_verifier'') (answerVerifier env q)"
  by (simp add: run_agents_unfold Let_def)

lemma run_agents_dr:
  "dr_run (run_agents env q) =
     run_if (has_agent (plan_used (run_agents env q)) ''difficulty_rater'') (difficultyRater env q)"
  by (simp add: run_agents_unfold Let_def)

lemma run_agents_uc:
  "uc_run (run_agents env q) =
     run_if (has_agent (plan_used (run_agents env q)) ''unit_checker'') (unitChecker env q)"
  by (simp add: run_agents_unfold Let_def)

lemma run_agents_ca:
  "ca_run (run_agents env q) =
     run_if ((has_agent (plan_used (run_agents env q)) ''conflict_analyzer'' \<or>
              hasConflict_of q (result_of (av_run (run_agents env q)))) \<and>
             truthy (result_of (av_run (run_agents env q))))
       (conflictAnalyzer env q (result_of (av_run (run_agents env q))))"
  by (simp add: run_agents_unfold Let_def)

lemma run_agents_ec:
  "ec_run (run_agents env q) =
     run_if (has_agent (plan_used (run_agents env q)) ''explanation_critic'')
       (explanationCritic env q)"
  by (simp add: run_agents_unfold Let_def)

lemma run_agents_mt:
  "mt_run (run_agents env q) =
     run_if (has_agent (plan_used (run_agents env q)) ''memory_trick_generator'')
       (memoryTrickGenerator env q)"
  by (simp add: run_agents_unfold Let_def)

lemma run_agents_cc:
  "cc_run (run_agents env q) =
     run_if (has_agent (plan_used (run_agents env q)) ''calculation_checker'' \<or>
             truthy (isNumerical (plan_used (run_agents env q))))
       (calculationChecker env q)"
  by (simp add: run_agents_unfold Let_def)

lemma run_agents_lines:
  "stage_lines (run_agents env q) =
     snd (orchestrate env q) @
     stage_log env (ran [av_run (run_agents env q), dr_run (run_agents env q),
                         uc_run (run_agents env q)]) @
     fst (await_all env (ran [ca_run (run_agents env q), ec_run (run_agents env q),
                              mt_run (run_agents env q), cc_run (run_agents env q)]))"
  by (simp add: run_agents_unfold Let_def)

lemma run_agents_aborted:
  "aborted (run_agents env q) =
     (case ca_run (run_agents env q) of None \<Rightarrow> None | Some r \<Rightarrow> thrown r)"
  by (simp add: run_agents_unfold Let_def)

lemma set_ran: "set (ran rs) = {r. Some r \<in> set rs}"
  by (induction rs rule: ran.induct) auto

lemma review_try_log:
  "fst (review_try env q) =
     stage_lines (run_agents env q) @
     (if aborted (run_agents env q) = None
      then [CompleteLine (elapsed_text env) (length (agents (plan_used (run_agents env q))))]
      else [])"
  by (simp add: review_try_def Let_def split: option.splits)

lemma review_try_aborted:
  "aborted (run_agents env q) = Some e \<Longrightarrow> snd (review_try env q) = Inl e"
  by (simp add: review_try_def Let_def)

lemma review_try_done:
  assumes "snd (review_try env q) = Inr r"
  shows "status r = ''done''"
    and "agentLog r = fst (review_try env q)"
    and "hasConflict r = hasConflict_of q (result_of (av_run (run_agents env q)))"
    and "needsHuman r = needsHuman_of (result_of (av_run (run_agents env q)))
                          (result_of (ca_run (run_agents env q)))"
    and "finalAnswer r = finalAnswer_of q (result_of (av_run (run_agents env q)))
                          (result_of (ca_run (run_agents env q)))"
    and "answerVerdict r = get_prop (result_of (av_run (run_agents env q))) ''verdict''"
    and "aborted (run_agents env q) = None"
  using assms
  by (auto simp: review_try_def Let_def then_try_def split: sum.splits option.splits)

lemma reviewQuestion_eq:
  "reviewQuestion env q =
     Inr (case snd (review_try env q) of
            Inr r \<Rightarrow> r
          | Inl e \<Rightarrow> error_result q (fst (review_try env q)) e)"
  by (simp add: reviewQuestion_def split: prod.splits sum.splits)

section \<open>The claims\<close>

lemma started_in_stage_lines:
  assumes "p = run_agents env q"
    and "ca_run p = Some r \<or> ec_run p = Some r \<or> mt_run p = Some r \<or> cc_run p = Some r"
  shows "set (started r) \<subseteq> set (stage_lines p)"
proof -
  let ?runs = "ran [ca_run p, ec_run p, mt_run p, cc_run p]"
  have "r \<in> set ?runs"
    using assms(2) by (auto simp: set_ran)
  then have "set (started r) \<subseteq> set (fst (await_all env ?runs))"
    using set_await_all(1)[where runs = ?runs and env = env] by blast
  then show ?thesis
    unfolding assms(1) run_agents_lines by auto
qed

text \<open>
  Claim C9. For a question with no explanation text (neither a final explanation nor
  feedback), a run of the Explanation Critic returns quality \<open>Missing\<close> and score 0,
  makes no inference call, and logs its short-circuit notice right after its first
  line; a review that runs the critic has the notice in its log.
\<close>

theorem explanationCritic_missing_shortcut:
  assumes "q_finalExplanation q = []" and "q_feedback q = []"
  shows "get_prop (result (explanationCritic env q)) ''quality'' = JStr ''Missing'' \<and>
         get_prop (result (explanationCritic env q)) ''score'' = JNum 0 \<and>
         calls (explanationCritic env q) = [] \<and>
         started (explanationCritic env q) @ finished (explanationCritic env q) =
           [ECStart, ECMissing] \<and>
         (\<forall>r. has_agent (plan_used (run_agents env q)) ''explanation_critic'' \<longrightarrow>
              reviewQuestion env q = Inr r \<longrightarrow> ECMissing \<in> set (agentLog r))"
proof -
  have run: "explanationCritic env q =
      \<lparr> kind = ExplanationCritic, result = explanationCritic_missing,
        started = [ECStart, ECMissing], finished = [], calls = [], thrown = None \<rparr>"
    using assms by (simp add: explanationCritic_def explanation_of_def)
  have logged: "ECMissing \<in> set (agentLog r)"
    if plan: "has_agent (plan_used (run_agents env q)) ''explanation_critic''"
      and r: "reviewQuestion env q = Inr r" for r
  proof -
    have "ec_run (run_agents env q) = Some (explanationCritic env q)"
      using plan by (simp add: run_agents_ec run_if_def)
    then have "ECMissing \<in> set (stage_lines (run_agents env q))"
      using started_in_stage_lines[of "run_agents env q" env q "explanationCritic env q"]
      by (simp add: run)
    then have "ECMissing \<in> set (fst (review_try env q))"
      by (simp add: review_try_log)
    moreover have "set (fst (review_try env q)) \<subseteq> set (agentLog r)"
      using r review_try_done(2)[of env q]
      by (auto simp: reviewQuestion_eq error_result_def split: sum.splits)
    ultimately show ?thesis by blast
  qed
  show ?thesis
    using logged by (simp add: run explanationCritic_missing_def)
qed

theorem explanationCritic_missing_shortcut_witness:
  "q_finalExplanation threshold_question = [] \<and> q_feedback threshold_question = [] \<and>
   get_prop (result (explanationCritic env_offline threshold_question)) ''quality'' =
     JStr ''Missing'' \<and>
   calls (explanationCritic env_offline threshold_question) = [] \<and>
   (\<exists>r. reviewQuestion env_offline threshold_question = Inr r \<and> ECMissing \<in> set (agentLog r))"
proof -
  have a: "q_finalExplanation threshold_question = []" and b: "q_feedback threshold_question = []"
    by (simp_all add: threshold_question_def)
  have plan: "has_agent (plan_used (run_agents env_offline threshold_question))
                ''explanation_critic''"
    by (simp add: run_agents_plan orchestrate_def planning_def call_and_parse_def callLLM_def
        usable_key_def env_offline_def then_try_def has_agent_def default_plan_def)
  obtain r where r: "reviewQuestion env_offline threshold_question = Inr r"
    by (simp add: reviewQuestion_eq)
  from explanationCritic_missing_shortcut[OF a b, of env_offline] plan r a b
  show ?thesis by blast
qed

text \<open>
  Claim C1. \<open>reviewQuestion\<close> never rejects: for every environment and question it
  returns a result whose status is \<open>done\<close> or \<open>error\<close>, \<open>done\<close> exactly when
  the \<open>try\<close> block returns that result. When the \<open>try\<close> block throws, the result
  has status \<open>error\<close>, \<open>needsHuman\<close> true, a query summary that carries the message
  of the error, and the log of the block with the line of the error at its end. The
  block throws exactly when the Conflict Analyzer runs and cannot render its prompt (its
  promise is rejected, and so is \<open>Promise.all\<close>), when a part of the query summary
  cannot be rendered, or when one of the two \<open>join\<close> calls of the returned object
  throws.
\<close>

theorem reviewQuestion_never_throws:
  "\<exists>r. reviewQuestion env q = Inr r \<and>
        (status r = ''done'' \<or> status r = ''error'') \<and>
        (status r = ''done'') = (snd (review_try env q) = Inr r) \<and>
        (\<forall>e. snd (review_try env q) = Inl e \<longrightarrow>
             status r = ''error'' \<and> needsHuman r = JBool True \<and>
             queries r = [SystemErrorNotice (message e)] \<and>
             agentLog r = fst (review_try env q) @ [SystemErrorLine (message e)]) \<and>
        (\<forall>a e. ca_run (run_agents env q) = Some (conflictAnalyzer env q a) \<and>
               analyzer_prompt q a = Inl e \<longrightarrow>
             snd (review_try env q) = Inl e) \<and>
        isl (snd (review_try env q)) =
          (aborted (run_agents env q) \<noteq> None \<or>
           isl (pushed (queryParts_of
                  (needsHuman_of (result_of (av_run (run_agents env q)))
                     (result_of (ca_run (run_agents env q))))
                  (hasConflict_of q (result_of (av_run (run_agents env q))))
                  (result_of (av_run (run_agents env q)))
                  (result_of (ca_run (run_agents env q)))
                  (result_of (dr_run (run_agents env q)))
                  (result_of (uc_run (run_agents env q)))
                  (result_of (ec_run (run_agents env q)))
                  (result_of (cc_run (run_agents env q))))) \<or>
           isl (join_opt ''explanationResult?.missingElements?.join''
                  (get_prop (result_of (ec_run (run_agents env q))) ''missingElements'')) \<or>
           isl (join_opt ''calcResult?.thresholdsInvolved?.join''
                  (get_prop (result_of (cc_run (run_agents env q))) ''thresholdsInvolved'')))"
  (is "\<exists>r. _ \<and> _ \<and> _ \<and> _ \<and> ?R \<and> ?P")
proof -
  have rejected: "snd (review_try env q) = Inl e"
    if "ca_run (run_agents env q) = Some (conflictAnalyzer env q a) \<and>
        analyzer_prompt q a = Inl e" for a e
  proof -
    have "thrown (conflictAnalyzer env q a) = Some e"
      using that by (simp add: conflictAnalyzer_def)
    then have "aborted (run_agents env q) = Some e"
      using that by (simp add: run_agents_aborted)
    then show ?thesis by (rule review_try_aborted)
  qed
  have points: "isl (snd (review_try env q)) =
          (aborted (run_agents env q) \<noteq> None \<or>
           isl (pushed (queryParts_of
                  (needsHuman_of (result_of (av_run (run_agents env q)))
                     (result_of (ca_run (run_agents env q))))
                  (hasConflict_of q (result_of (av_run (run_agents env q))))
                  (result_of (av_run (run_agents env q)))
                  (result_of (ca_run (run_agents env q)))
                  (result_of (dr_run (run_agents env q)))
                  (result_of (uc_run (run_agents env q)))
                  (result_of (ec_run (run_agents env q)))
                  (result_of (cc_run (run_agents env q))))) \<or>
           isl (join_opt ''explanationResult?.missingElements?.join''
                  (get_prop (result_of (ec_run (run_agents env q))) ''missingElements'')) \<or>
           isl (join_opt ''calcResult?.thresholdsInvolved?.join''
                  (get_prop (result_of (cc_run (run_agents env q))) ''thresholdsInvolved'')))"
    by (simp add: review_try_def Let_def then_try_def split: option.splits sum.splits)
  show ?thesis
  proof (cases "snd (review_try env q)")
    case (Inl e)
    let ?r = "error_result q (fst (review_try env q)) e"
    have st: "status ?r = ''error''"
      by (simp add: error_result_def)
    show ?thesis
    proof (intro exI[of _ ?r] conjI)
      show "reviewQuestion env q = Inr ?r"
        using Inl by (simp add: reviewQuestion_eq)
      show "status ?r = ''done'' \<or> status ?r = ''error''"
        using st by simp
      show "(status ?r = ''done'') = (snd (review_try env q) = Inr ?r)"
        using Inl st by simp
      show "\<forall>e. snd (review_try env q) = Inl e \<longrightarrow>
             status ?r = ''error'' \<and> needsHuman ?r = JBool True \<and>
             queries ?r = [SystemErrorNotice (message e)] \<and>
             agentLog ?r = fst (review_try env q) @ [SystemErrorLine (message e)]"
        using Inl by (simp add: error_result_def)
      show ?R using rejected by blast
      show ?P by (rule points)
    qed
  next
    case (Inr r)
    have st: "status r = ''done''"
      using Inr by (rule review_try_done(1))
    show ?thesis
    proof (intro exI[of _ r] conjI)
      show "reviewQuestion env q = Inr r"
        using Inr by (simp add: reviewQuestion_eq)
      show "status r = ''done'' \<or> status r = ''error''"
        using st by simp
      show "(status r = ''done'') = (snd (review_try env q) = Inr r)"
        using Inr st by simp
      show "\<forall>e. snd (review_try env q) = Inl e \<longrightarrow>
             status r = ''error'' \<and> needsHuman r = JBool True \<and>
             queries r = [SystemErrorNotice (message e)] \<and>
             agentLog r = fst (review_try env q) @ [SystemErrorLine (message e)]"
        using Inr by simp
      show ?R using rejected by blast
      show ?P by (rule points)
    qed
  qed
qed

lemma critic_throws:
  "snd (review_try env_critic explained_question) =
     Inl (TypeError ''explanationResult?.missingElements?.join is not a function'')"
  by code_simp

lemma escalated_throws:
  "snd (review_try env_escalated explained_question) = Inl unprintable"
  by code_simp

lemma unprintable_verdict_throws:
  "ca_run (run_agents env_unprintable_verdict threshold_question) =
     Some (conflictAnalyzer env_unprintable_verdict threshold_question
             (JObj [(''correctAnswer'', JStr ''B''), (''verdict'', JObj [(''toString'', JNum 1)])]))"
  "analyzer_prompt threshold_question
     (JObj [(''correctAnswer'', JStr ''B''), (''verdict'', JObj [(''toString'', JNum 1)])]) =
     Inl unprintable"
  "fst (review_try env_unprintable_verdict threshold_question) =
     [OrchStart ''E2-001'', OrchFallback ''fetch failed'',
      AVStart, DRStart, UCStart, AVFallbackDone (JStr ''B''), DRFailed ''fetch failed'',
      UCFailed ''fetch failed'', CAStart, ECStart, ECMissing, MTStart, CCStart]"
  by code_simp+

lemma offline_completes:
  "isl (snd (review_try env_offline threshold_question)) = False"
  by code_simp

theorem reviewQuestion_never_throws_witness:
  "(\<exists>r. reviewQuestion env_critic explained_question = Inr r \<and> status r = ''error'' \<and>
        needsHuman r = JBool True \<and>
        queries r =
          [SystemErrorNotice ''explanationResult?.missingElements?.join is not a function'']) \<and>
   (\<exists>r. reviewQuestion env_escalated explained_question = Inr r \<and> status r = ''error'' \<and>
        needsHuman r = JBool True \<and>
        queries r = [SystemErrorNotice ''Cannot convert object to primitive value'']) \<and>
   (\<exists>r. reviewQuestion env_unprintable_verdict threshold_question = Inr r \<and>
        status r = ''error'' \<and> needsHuman r = JBool True \<and>
        queries r = [SystemErrorNotice ''Cannot convert object to primitive value''] \<and>
        agentLog r =
          [OrchStart ''E2-001'', OrchFallback ''fetch failed'',
           AVStart, DRStart, UCStart, AVFallbackDone (JStr ''B''), DRFailed ''fetch failed'',
           UCFailed ''fetch failed'', CAStart, ECStart, ECMissing, MTStart, CCStart,
           SystemErrorLine ''Cannot convert object to primitive value'']) \<and>
   (\<exists>r. reviewQuestion env_offline threshold_question = Inr r \<and> status r = ''done'')"
proof -
  have msg: "message unprintable = ''Cannot convert object to primitive value''"
    by (simp add: unprintable_def)
  have one: "\<exists>r. reviewQuestion env_critic explained_question = Inr r \<and> status r = ''error'' \<and>
        needsHuman r = JBool True \<and>
        queries r =
          [SystemErrorNotice ''explanationResult?.missingElements?.join is not a function'']"
    using reviewQuestion_never_throws[of env_critic explained_question]
    by (auto simp: critic_throws)
  have two: "\<exists>r. reviewQuestion env_escalated explained_question = Inr r \<and>
        status r = ''error'' \<and> needsHuman r = JBool True \<and>
        queries r = [SystemErrorNotice ''Cannot convert object to primitive value'']"
    using reviewQuestion_never_throws[of env_escalated explained_question]
    by (auto simp: escalated_throws msg)
  obtain r where r: "reviewQuestion env_unprintable_verdict threshold_question = Inr r"
      and caught: "\<forall>e. snd (review_try env_unprintable_verdict threshold_question) = Inl e \<longrightarrow>
             status r = ''error'' \<and> needsHuman r = JBool True \<and>
             queries r = [SystemErrorNotice (message e)] \<and>
             agentLog r = fst (review_try env_unprintable_verdict threshold_question) @
                          [SystemErrorLine (message e)]"
      and rejected: "\<forall>a e. ca_run (run_agents env_unprintable_verdict threshold_question) =
                 Some (conflictAnalyzer env_unprintable_verdict threshold_question a) \<and>
               analyzer_prompt threshold_question a = Inl e \<longrightarrow>
             snd (review_try env_unprintable_verdict threshold_question) = Inl e"
    using reviewQuestion_never_throws[of env_unprintable_verdict threshold_question] by blast
  have "snd (review_try env_unprintable_verdict threshold_question) = Inl unprintable"
    using rejected unprintable_verdict_throws(1,2) by blast
  with caught have three: "status r = ''error'' \<and> needsHuman r = JBool True \<and>
        queries r = [SystemErrorNotice ''Cannot convert object to primitive value''] \<and>
        agentLog r =
          [OrchStart ''E2-001'', OrchFallback ''fetch failed'',
           AVStart, DRStart, UCStart, AVFallbackDone (JStr ''B''), DRFailed ''fetch failed'',
           UCFailed ''fetch failed'', CAStart, ECStart, ECMissing, MTStart, CCStart,
           SystemErrorLine ''Cannot convert object to primitive value'']"
    by (simp add: msg unprintable_verdict_throws(3))
  obtain r4 where r4: "reviewQuestion env_offline threshold_question = Inr r4"
      and completed: "(status r4 = ''done'') =
                        (snd (review_try env_offline threshold_question) = Inr r4)"
    using reviewQuestion_never_throws[of env_offline threshold_question] by blast
  have "snd (review_try env_offline threshold_question) = Inr r4"
    using r4 offline_completes
    by (cases "snd (review_try env_offline threshold_question)")
       (simp_all add: reviewQuestion_eq)
  with completed have four: "status r4 = ''done''"
    by simp
  from one two r three r4 four show ?thesis by blast
qed

lemma orchestrate_lines:
  "l \<in> set (snd (orchestrate env q)) \<Longrightarrow> line_agent l = Some Orchestrator"
  by (auto simp: orchestrate_def split: sum.splits)

lemma answerVerifier_lines:
  "l \<in> set (started (answerVerifier env q)) \<union> set (finished (answerVerifier env q)) \<Longrightarrow>
   line_agent l = Some AnswerVerifier"
  by (auto simp: answerVerifier_def Let_def verifier_line_def verifier_fallback_line_def
      split: sum.splits)

lemma conflictAnalyzer_lines:
  "l \<in> set (started (conflictAnalyzer env q a)) \<union> set (finished (conflictAnalyzer env q a)) \<Longrightarrow>
   line_agent l = Some ConflictAnalyzer"
  by (auto simp: conflictAnalyzer_def analyzer_line_def split: sum.splits prod.splits)

lemma difficultyRater_lines:
  "l \<in> set (started (difficultyRater env q)) \<union> set (finished (difficultyRater env q)) \<Longrightarrow>
   line_agent l = Some DifficultyRater"
  by (auto simp: difficultyRater_def rater_line_def split: sum.splits prod.splits)

lemma unitChecker_lines:
  "l \<in> set (started (unitChecker env q)) \<union> set (finished (unitChecker env q)) \<Longrightarrow>
   line_agent l = Some UnitChecker"
  by (auto simp: unitChecker_def checker_line_def split: sum.splits prod.splits)

lemma explanationCritic_lines:
  "l \<in> set (started (explanationCritic env q)) \<union> set (finished (explanationCritic env q)) \<Longrightarrow>
   line_agent l = Some ExplanationCritic"
  by (auto simp: explanationCritic_def Let_def critic_line_def
      split: sum.splits prod.splits if_splits)

lemma memoryTrickGenerator_lines:
  "l \<in> set (started (memoryTrickGenerator env q)) \<union> set (finished (memoryTrickGenerator env q)) \<Longrightarrow>
   line_agent l = Some MemoryTrickGenerator"
  by (auto simp: memoryTrickGenerator_def trick_line_def split: sum.splits prod.splits)

lemma calculationChecker_lines:
  "l \<in> set (started (calculationChecker env q)) \<union> set (finished (calculationChecker env q)) \<Longrightarrow>
   line_agent l = Some CalculationChecker"
  by (auto simp: calculationChecker_def calculation_line_def split: sum.splits prod.splits)

lemma conflictAnalyzer_started: "started (conflictAnalyzer env q a) = [CAStart]"
  by (simp add: conflictAnalyzer_def split: sum.splits prod.splits)

lemma calculationChecker_started: "started (calculationChecker env q) = [CCStart]"
  by (simp add: calculationChecker_def split: sum.splits prod.splits)

text \<open>Every line the stages leave in the log is written by an agent that was called.\<close>

lemma stage_line_agent:
  assumes "l \<in> set (stage_lines (run_agents env q))"
  shows "line_agent l = Some Orchestrator \<or>
         (line_agent l = Some AnswerVerifier \<and> av_run (run_agents env q) \<noteq> None) \<or>
         (line_agent l = Some DifficultyRater \<and> dr_run (run_agents env q) \<noteq> None) \<or>
         (line_agent l = Some UnitChecker \<and> uc_run (run_agents env q) \<noteq> None) \<or>
         (line_agent l = Some ConflictAnalyzer \<and> ca_run (run_agents env q) \<noteq> None) \<or>
         (line_agent l = Some ExplanationCritic \<and> ec_run (run_agents env q) \<noteq> None) \<or>
         (line_agent l = Some MemoryTrickGenerator \<and> mt_run (run_agents env q) \<noteq> None) \<or>
         (line_agent l = Some CalculationChecker \<and> cc_run (run_agents env q) \<noteq> None)"
proof -
  let ?p = "run_agents env q"
  let ?second = "ran [ca_run ?p, ec_run ?p, mt_run ?p, cc_run ?p]"
  have "set (fst (await_all env ?second)) \<subseteq>
          (\<Union>r\<in>set ?second. set (started r) \<union> set (finished r))"
    by (rule set_await_all(2))
  with assms consider
      "l \<in> set (snd (orchestrate env q))"
    | r where "r \<in> set (ran [av_run ?p, dr_run ?p, uc_run ?p])"
        "l \<in> set (started r) \<union> set (finished r)"
    | r where "r \<in> set ?second" "l \<in> set (started r) \<union> set (finished r)"
    unfolding run_agents_lines set_append set_stage_log by blast
  then show ?thesis
  proof cases
    case 1
    then show ?thesis using orchestrate_lines by blast
  next
    case 2
    then consider "av_run ?p = Some r" | "dr_run ?p = Some r" | "uc_run ?p = Some r"
      by (auto simp: set_ran)
    then show ?thesis
    proof cases
      case 1
      then have "r = answerVerifier env q"
        by (simp add: run_agents_av run_if_def split: if_splits)
      then show ?thesis using 1 2(2) answerVerifier_lines[of l env q] by simp
    next
      case 2
      then have "r = difficultyRater env q"
        by (simp add: run_agents_dr run_if_def split: if_splits)
      then show ?thesis using 2 \<open>l \<in> set (started r) \<union> set (finished r)\<close>
          difficultyRater_lines[of l env q] by simp
    next
      case 3
      then have "r = unitChecker env q"
        by (simp add: run_agents_uc run_if_def split: if_splits)
      then show ?thesis using 3 \<open>l \<in> set (started r) \<union> set (finished r)\<close>
          unitChecker_lines[of l env q] by simp
    qed
  next
    case 3
    then consider "ca_run ?p = Some r" | "ec_run ?p = Some r" | "mt_run ?p = Some r"
      | "cc_run ?p = Some r"
      by (auto simp: set_ran)
    then show ?thesis
    proof cases
      case 1
      then have "r = conflictAnalyzer env q (result_of (av_run ?p))"
        by (simp add: run_agents_ca run_if_def split: if_splits)
      then show ?thesis using 1 3(2) conflictAnalyzer_lines[of l env q] by simp
    next
      case 2
      then have "r = explanationCritic env q"
        by (simp add: run_agents_ec run_if_def split: if_splits)
      then show ?thesis using 2 3(2) explanationCritic_lines[of l env q] by simp
    next
      case 3
      then have "r = memoryTrickGenerator env q"
        by (simp add: run_agents_mt run_if_def split: if_splits)
      then show ?thesis using 3 \<open>l \<in> set (started r) \<union> set (finished r)\<close>
          memoryTrickGenerator_lines[of l env q] by simp
    next
      case 4
      then have "r = calculationChecker env q"
        by (simp add: run_agents_cc run_if_def split: if_splits)
      then show ?thesis using 4 \<open>l \<in> set (started r) \<union> set (finished r)\<close>
          calculationChecker_lines[of l env q] by simp
    qed
  qed
qed

lemma conflict_line_needs_run:
  assumes "l \<in> set (stage_lines (run_agents env q))"
    and "line_agent l = Some ConflictAnalyzer"
  shows "ca_run (run_agents env q) \<noteq> None"
  using stage_line_agent[OF assms(1)] assms(2) by auto

lemma checker_line_needs_run:
  assumes "l \<in> set (stage_lines (run_agents env q))"
    and "line_agent l = Some CalculationChecker"
  shows "cc_run (run_agents env q) \<noteq> None"
  using stage_line_agent[OF assms(1)] assms(2) by auto

lemma agentLog_lines:
  assumes "reviewQuestion env q = Inr r"
  shows "set (stage_lines (run_agents env q)) \<subseteq> set (agentLog r)"
    and "l \<in> set (agentLog r) \<Longrightarrow>
         l \<in> set (stage_lines (run_agents env q)) \<or> line_agent l = None"
  using assms review_try_done(2)[of env q]
  by (auto simp: reviewQuestion_eq error_result_def review_try_log split: sum.splits if_splits)

lemma done_is_try:
  assumes "reviewQuestion env q = Inr r" and "status r = ''done''"
  shows "snd (review_try env q) = Inr r"
  using assms by (auto simp: reviewQuestion_eq error_result_def split: sum.splits)

text \<open>
  Claim C5. When the manual, the AI-derived and the final answer of a question are equal
  and the verdict of the Answer Verifier is not \<open>uncertain\<close>, then unless the plan
  names \<open>conflict_analyzer\<close> the review has \<open>hasConflict\<close> false, the Conflict
  Analyzer does not run, and no line of the Conflict Analyzer is in the log.
\<close>

theorem no_conflict_without_disagreement:
  assumes "q_rightOption q = q_aiAnswer q" and "q_aiAnswer q = q_finalAnswer q"
    and "get_prop (result_of (av_run (run_agents env q))) ''verdict'' \<noteq> JStr ''uncertain''"
    and "\<not> has_agent (plan_used (run_agents env q)) ''conflict_analyzer''"
    and "reviewQuestion env q = Inr r"
  shows "hasConflict r = False \<and> ca_run (run_agents env q) = None \<and>
         (\<forall>l \<in> set (agentLog r). line_agent l \<noteq> Some ConflictAnalyzer)"
proof -
  have quiet: "\<not> hasConflict_of q (result_of (av_run (run_agents env q)))"
    using assms(1-3) by (simp add: hasConflict_of_def)
  have flag: "hasConflict r = False"
    using assms(5) quiet review_try_done(3)[of env q]
    by (auto simp: reviewQuestion_eq error_result_def split: sum.splits)
  have none: "ca_run (run_agents env q) = None"
    using quiet assms(4) by (simp add: run_agents_ca run_if_def)
  have "line_agent l \<noteq> Some ConflictAnalyzer" if "l \<in> set (agentLog r)" for l
    using agentLog_lines(2)[OF assms(5) that] conflict_line_needs_run[of l env q] none
    by auto
  with flag none show ?thesis by blast
qed


lemma verified_facts:
  "get_prop (result_of (av_run (run_agents env_verified explained_question))) ''verdict'' =
     JStr ''ai_correct''"
  "has_agent (plan_used (run_agents env_verified explained_question)) ''answer_verifier''"
  "\<not> has_agent (plan_used (run_agents env_verified explained_question)) ''conflict_analyzer''"
  by code_simp+

theorem no_conflict_without_disagreement_witness:
  "q_rightOption explained_question = q_aiAnswer explained_question \<and>
   q_aiAnswer explained_question = q_finalAnswer explained_question \<and>
   has_agent (plan_used (run_agents env_verified explained_question)) ''answer_verifier'' \<and>
   (\<exists>r. reviewQuestion env_verified explained_question = Inr r \<and> hasConflict r = False \<and>
        ca_run (run_agents env_verified explained_question) = None \<and>
        (\<forall>l \<in> set (agentLog r). line_agent l \<noteq> Some ConflictAnalyzer))"
proof -
  have a: "q_rightOption explained_question = q_aiAnswer explained_question"
    and b: "q_aiAnswer explained_question = q_finalAnswer explained_question"
    by (simp_all add: explained_question_def threshold_question_def)
  have c: "get_prop (result_of (av_run (run_agents env_verified explained_question))) ''verdict''
             \<noteq> JStr ''uncertain''"
    by (simp add: verified_facts(1))
  obtain r where r: "reviewQuestion env_verified explained_question = Inr r"
    by (simp add: reviewQuestion_eq)
  from no_conflict_without_disagreement[OF a b c verified_facts(3) r] a b r verified_facts(2)
  show ?thesis by blast
qed

lemma parseJSON_object: "parseJSON env raw = Inr v \<Longrightarrow> \<exists>kvs. v = JObj kvs"
  by (auto simp: parseJSON_def Let_def map_sum_def split: option.splits sum.splits)

lemma call_and_parse_object:
  "call_and_parse env msgs provider tier temp = Inr v \<Longrightarrow> \<exists>kvs. v = JObj kvs"
  by (auto simp: call_and_parse_def then_try_def split: sum.splits dest: parseJSON_object)

lemma logging_value: "logging line x = Inr y \<Longrightarrow> y = x"
  by (simp add: logging_def split: if_splits)

lemma verifier_primary_object: "verifier_primary env msgs = Inr v \<Longrightarrow> \<exists>kvs. v = JObj kvs"
  by (auto simp: verifier_primary_def verifier_primary_attempt_def attempt_then_def
      then_try_def split: sum.splits dest: parseJSON_object logging_value)

lemma verifier_fallback_object: "verifier_fallback env msgs = Inr v \<Longrightarrow> \<exists>kvs. v = JObj kvs"
  by (auto simp: verifier_fallback_def verifier_fallback_attempt_def try_block_def
      attempt_then_def then_try_def split: sum.splits dest: parseJSON_object logging_value)

lemma answerVerifier_object: "\<exists>kvs. result (answerVerifier env q) = JObj kvs"
  by (auto simp: answerVerifier_def Let_def answerVerifier_default_def
      split: sum.splits dest: verifier_primary_object verifier_fallback_object)

text \<open>
  Claim C4, as stated, fails: with a plan that leaves out the Answer Verifier there is
  no verifier result, and the guard \<open>&& answerResult\<close> keeps the Conflict Analyzer
  from running although the manual and the AI-derived answer differ.
\<close>

theorem disagreement_without_verifier_counterexample:
  "q_rightOption threshold_question \<noteq> q_aiAnswer threshold_question \<and>
   \<not> has_agent (plan_used (run_agents env_planned threshold_question)) ''conflict_analyzer'' \<and>
   ca_run (run_agents env_planned threshold_question) = None \<and>
   CAStart \<notin> set (stage_lines (run_agents env_planned threshold_question))"
  by code_simp

text \<open>
  Claim C4, amended. The agent set of the plan is advisory: whenever the Answer Verifier
  ran (the plan names it) and a disagreement is detected (the manual answer differs from
  the AI-derived or from the final answer, or the verdict is \<open>uncertain\<close>), the
  Conflict Analyzer runs on the verifier's result, whether or not the plan names it; and
  whenever the plan marks the question numeric, the Calculation Checker runs, whether or
  not the plan names it.
\<close>

theorem forced_agents_run:
  assumes "p = run_agents env q"
  shows "(has_agent (plan_used p) ''answer_verifier'' \<and>
          (q_rightOption q \<noteq> q_aiAnswer q \<or> q_rightOption q \<noteq> q_finalAnswer q \<or>
           get_prop (result_of (av_run p)) ''verdict'' = JStr ''uncertain'') \<longrightarrow>
          ca_run p = Some (conflictAnalyzer env q (result_of (av_run p))) \<and>
          CAStart \<in> set (stage_lines p)) \<and>
         (truthy (isNumerical (plan_used p)) \<longrightarrow>
          cc_run p = Some (calculationChecker env q) \<and> CCStart \<in> set (stage_lines p))"
proof (intro conjI impI)
  assume h: "has_agent (plan_used p) ''answer_verifier'' \<and>
          (q_rightOption q \<noteq> q_aiAnswer q \<or> q_rightOption q \<noteq> q_finalAnswer q \<or>
           get_prop (result_of (av_run p)) ''verdict'' = JStr ''uncertain'')"
  then have "av_run p = Some (answerVerifier env q)"
    unfolding assms by (simp add: run_agents_av run_if_def)
  then have "truthy (result_of (av_run p))"
    using answerVerifier_object[of env q] by (auto simp: result_of_def)
  with h show run: "ca_run p = Some (conflictAnalyzer env q (result_of (av_run p)))"
    unfolding assms by (simp add: run_agents_ca run_if_def hasConflict_of_def)
  have "CAStart \<in> set (started (conflictAnalyzer env q (result_of (av_run p))))"
    by (simp add: conflictAnalyzer_started)
  then show "CAStart \<in> set (stage_lines p)"
    using started_in_stage_lines[OF assms, of "conflictAnalyzer env q (result_of (av_run p))"] run
    by blast
next
  assume "truthy (isNumerical (plan_used p))"
  then show run: "cc_run p = Some (calculationChecker env q)"
    unfolding assms by (simp add: run_agents_cc run_if_def)
  have "CCStart \<in> set (started (calculationChecker env q))"
    by (simp add: calculationChecker_started)
  then show "CCStart \<in> set (stage_lines p)"
    using started_in_stage_lines[OF assms, of "calculationChecker env q"] run
    by blast
qed

theorem forced_agents_run_witness:
  "\<not> has_agent (plan_used (run_agents env_verified threshold_question)) ''conflict_analyzer'' \<and>
   \<not> has_agent (plan_used (run_agents env_verified threshold_question)) ''calculation_checker'' \<and>
   CAStart \<in> set (stage_lines (run_agents env_verified threshold_question)) \<and>
   CCStart \<in> set (stage_lines (run_agents env_verified threshold_question))"
proof -
  have "has_agent (plan_used (run_agents env_verified threshold_question)) ''answer_verifier''"
    and "q_rightOption threshold_question \<noteq> q_aiAnswer threshold_question"
    and "truthy (isNumerical (plan_used (run_agents env_verified threshold_question)))"
    and "\<not> has_agent (plan_used (run_agents env_verified threshold_question)) ''conflict_analyzer''"
    and "\<not> has_agent (plan_used (run_agents env_verified threshold_question)) ''calculation_checker''"
    by code_simp+
  with forced_agents_run[OF refl, of env_verified threshold_question]
  show ?thesis by blast
qed

text \<open>
  Claim C6, as stated, fails: the Calculation Checker is forced by the numeric flag of
  the plan, and a plan that comes from the planner's answer carries the planner's flag,
  whatever the question text holds.
\<close>

theorem planned_numeric_question_counterexample:
  "numeric_marker (q_question threshold_question) \<and>
   \<not> has_agent (plan_used (run_agents env_planned threshold_question)) ''calculation_checker'' \<and>
   cc_run (run_agents env_planned threshold_question) = None \<and>
   CCStart \<notin> set (stage_lines (run_agents env_planned threshold_question))"
  by code_simp

text \<open>
  Claim C6, amended. For every question whose text contains a currency or percent marker
  (or \<open>million\<close>, \<open>thousand\<close>, \<open>percent\<close>): when the \<open>try\<close> block of the
  Orchestrator fails (its call, the parse, or the log line of the plan), the default plan
  is used, its agent set leaves out \<open>calculation_checker\<close>, and the Calculation
  Checker still runs. When the block succeeds, the plan is the object the planner
  returned, with the planner's own numeric flag, and for a plan that leaves out
  \<open>calculation_checker\<close> the Calculation Checker runs if that flag is truthy and does
  not run, and writes no line, if it is not.
\<close>

theorem calculation_checker_forced_by_flag:
  assumes "numeric_marker (q_question q)" and "p = run_agents env q"
  shows "(\<forall>e. planning env q = Inl e \<longrightarrow>
            plan_used p = default_plan q \<and>
            \<not> has_agent (plan_used p) ''calculation_checker'' \<and>
            cc_run p = Some (calculationChecker env q) \<and> CCStart \<in> set (stage_lines p)) \<and>
         (\<forall>pl. planning env q = Inr pl \<longrightarrow>
            plan_used p = pl \<and>
            (\<exists>obj. call_and_parse env (OrchestratorPrompt q) Groq Fast (1 / 10) = Inr obj \<and>
                   get_prop obj ''agents'' = JArr (agents pl) \<and>
                   get_prop obj ''isNumerical'' = isNumerical pl) \<and>
            (\<not> has_agent pl ''calculation_checker'' \<and> truthy (isNumerical pl) \<longrightarrow>
               cc_run p = Some (calculationChecker env q) \<and> CCStart \<in> set (stage_lines p)) \<and>
            (\<not> has_agent pl ''calculation_checker'' \<and> \<not> truthy (isNumerical pl) \<longrightarrow>
               cc_run p = None \<and> CCStart \<notin> set (stage_lines p)))"
proof -
  have started: "CCStart \<in> set (stage_lines p)" if "cc_run p = Some (calculationChecker env q)"
    using started_in_stage_lines[OF assms(2), of "calculationChecker env q"] that
    by (simp add: calculationChecker_started)
  have silent: "CCStart \<notin> set (stage_lines p)" if "cc_run p = None"
    using checker_line_needs_run[of CCStart env q] that unfolding assms(2) by auto
  have failed: "plan_used p = default_plan q \<and>
            \<not> has_agent (plan_used p) ''calculation_checker'' \<and>
            cc_run p = Some (calculationChecker env q) \<and> CCStart \<in> set (stage_lines p)"
    if "planning env q = Inl e" for e
  proof -
    have plan: "plan_used p = default_plan q"
      using that unfolding assms(2) by (simp add: run_agents_plan orchestrate_def)
    have omitted: "\<not> has_agent (default_plan q) ''calculation_checker''"
      by (simp add: has_agent_def default_plan_def)
    have run: "cc_run p = Some (calculationChecker env q)"
      using assms(1) plan unfolding assms(2)
      by (simp add: run_agents_cc run_if_def default_plan_def)
    from plan omitted run started show ?thesis by simp
  qed
  have planned: "plan_used p = pl \<and>
            (\<exists>obj. call_and_parse env (OrchestratorPrompt q) Groq Fast (1 / 10) = Inr obj \<and>
                   get_prop obj ''agents'' = JArr (agents pl) \<and>
                   get_prop obj ''isNumerical'' = isNumerical pl) \<and>
            (\<not> has_agent pl ''calculation_checker'' \<and> truthy (isNumerical pl) \<longrightarrow>
               cc_run p = Some (calculationChecker env q) \<and> CCStart \<in> set (stage_lines p)) \<and>
            (\<not> has_agent pl ''calculation_checker'' \<and> \<not> truthy (isNumerical pl) \<longrightarrow>
               cc_run p = None \<and> CCStart \<notin> set (stage_lines p))"
    if ok: "planning env q = Inr pl" for pl
  proof -
    have plan: "plan_used p = pl"
      using ok unfolding assms(2) by (simp add: run_agents_plan orchestrate_def)
    have parsed: "\<exists>obj. call_and_parse env (OrchestratorPrompt q) Groq Fast (1 / 10) = Inr obj \<and>
                   get_prop obj ''agents'' = JArr (agents pl) \<and>
                   get_prop obj ''isNumerical'' = isNumerical pl"
      using ok
      by (auto simp: planning_def then_try_def plan_of_def logging_def
          split: sum.splits jsval.splits if_splits)
    have forced: "cc_run p = Some (calculationChecker env q)" if "truthy (isNumerical pl)"
      using that plan unfolding assms(2) by (simp add: run_agents_cc run_if_def)
    have left: "cc_run p = None"
      if "\<not> has_agent pl ''calculation_checker''" "\<not> truthy (isNumerical pl)"
      using that plan unfolding assms(2) by (simp add: run_agents_cc run_if_def)
    from plan parsed forced left started silent show ?thesis by blast
  qed
  from failed planned show ?thesis by blast
qed

lemma planned_facts:
  "numeric_marker (q_question threshold_question)"
  "planning env_offline threshold_question = Inl (missing_key Groq)"
  "planning env_planned threshold_question =
     Inr \<lparr> agents = [JStr ''difficulty_rater''], reasoning = JUndefined,
           hasAnswerConflict = JUndefined, isNumerical = JBool False \<rparr>"
  "planning env_numeric_plan explained_question =
     Inr \<lparr> agents = [JStr ''difficulty_rater''], reasoning = JUndefined,
           hasAnswerConflict = JUndefined, isNumerical = JBool True \<rparr>"
  "numeric_marker (q_question explained_question)"
  "planning env_unprintable_plan threshold_question = Inl unprintable"
  by code_simp+

theorem calculation_checker_forced_by_flag_witness:
  "numeric_marker (q_question threshold_question) \<and>
   numeric_marker (q_question explained_question) \<and>
   plan_used (run_agents env_offline threshold_question) = default_plan threshold_question \<and>
   cc_run (run_agents env_offline threshold_question) =
     Some (calculationChecker env_offline threshold_question) \<and>
   CCStart \<in> set (stage_lines (run_agents env_offline threshold_question)) \<and>
   cc_run (run_agents env_planned threshold_question) = None \<and>
   CCStart \<notin> set (stage_lines (run_agents env_planned threshold_question)) \<and>
   cc_run (run_agents env_numeric_plan explained_question) =
     Some (calculationChecker env_numeric_plan explained_question) \<and>
   CCStart \<in> set (stage_lines (run_agents env_numeric_plan explained_question)) \<and>
   plan_used (run_agents env_unprintable_plan threshold_question) =
     default_plan threshold_question \<and>
   CCStart \<in> set (stage_lines (run_agents env_unprintable_plan threshold_question))"
proof -
  have omitted: "\<not> has_agent \<lparr> agents = [JStr ''difficulty_rater''], reasoning = JUndefined,
           hasAnswerConflict = JUndefined, isNumerical = b \<rparr> ''calculation_checker''" for b
    by (simp add: has_agent_def)
  from calculation_checker_forced_by_flag[OF planned_facts(1) refl, of env_offline]
    planned_facts(2)
  have one: "plan_used (run_agents env_offline threshold_question) =
        default_plan threshold_question \<and>
      cc_run (run_agents env_offline threshold_question) =
        Some (calculationChecker env_offline threshold_question) \<and>
      CCStart \<in> set (stage_lines (run_agents env_offline threshold_question))"
    by blast
  from calculation_checker_forced_by_flag[OF planned_facts(1) refl, of env_planned]
    planned_facts(3) omitted
  have two: "cc_run (run_agents env_planned threshold_question) = None \<and>
      CCStart \<notin> set (stage_lines (run_agents env_planned threshold_question))"
    by (simp add: has_agent_def)
  from calculation_checker_forced_by_flag[OF planned_facts(5) refl, of env_numeric_plan]
    planned_facts(4) omitted
  have three: "cc_run (run_agents env_numeric_plan explained_question) =
        Some (calculationChecker env_numeric_plan explained_question) \<and>
      CCStart \<in> set (stage_lines (run_agents env_numeric_plan explained_question))"
    by (simp add: has_agent_def)
  from calculation_checker_forced_by_flag[OF planned_facts(1) refl, of env_unprintable_plan]
    planned_facts(6)
  have four: "plan_used (run_agents env_unprintable_plan threshold_question) =
        default_plan threshold_question \<and>
      CCStart \<in> set (stage_lines (run_agents env_unprintable_plan threshold_question))"
    by blast
  from one two three four planned_facts(1,5) show ?thesis by blast
qed

text \<open>
  Claim C10. When the plan names the Answer Verifier and every attempt of the verifier
  fails (the outer \<open>try\<close> block and the call to the other provider), the verifier
  returns its default, and a completed review has \<open>needsHuman\<close> true and the verdict
  \<open>uncertain\<close>.
\<close>

theorem verifier_failure_escalates:
  assumes "has_agent (plan_used (run_agents env q)) ''answer_verifier''"
    and "verifier_primary env (AnswerVerifierPrompt q) = Inl e"
    and "verifier_fallback env (AnswerVerifierPrompt q) = Inl e2"
    and "reviewQuestion env q = Inr r"
    and "status r = ''done''"
  shows "result (answerVerifier env q) = answerVerifier_default e2 \<and>
         needsHuman r = JBool True \<and> answerVerdict r = JStr ''uncertain''"
proof -
  have res: "result (answerVerifier env q) = answerVerifier_default e2"
    using assms(2,3) by (simp add: answerVerifier_def Let_def)
  have av: "result_of (av_run (run_agents env q)) = answerVerifier_default e2"
    using assms(1) res by (simp add: run_agents_av run_if_def result_of_def)
  have body: "snd (review_try env q) = Inr r"
    using assms(4,5) by (rule done_is_try)
  have "needsHuman r = JBool True"
    using review_try_done(4)[OF body]
    by (simp add: av needsHuman_of_def answerVerifier_default_def js_or_def)
  moreover have "answerVerdict r = JStr ''uncertain''"
    using review_try_done(6)[OF body] by (simp add: av answerVerifier_default_def)
  ultimately show ?thesis using res by simp
qed

theorem verifier_failure_escalates_witness:
  "has_agent (plan_used (run_agents env_offline threshold_question)) ''answer_verifier'' \<and>
   verifier_primary env_offline (AnswerVerifierPrompt threshold_question) =
     Inl (missing_key Groq) \<and>
   verifier_fallback env_offline (AnswerVerifierPrompt threshold_question) =
     Inl (missing_key OpenRouter) \<and>
   (\<exists>r. reviewQuestion env_offline threshold_question = Inr r \<and> status r = ''done'' \<and>
        needsHuman r = JBool True \<and> answerVerdict r = JStr ''uncertain'')"
proof -
  have a: "has_agent (plan_used (run_agents env_offline threshold_question)) ''answer_verifier''"
    by code_simp
  have b: "verifier_primary env_offline (AnswerVerifierPrompt threshold_question) =
             Inl (missing_key Groq)"
    by code_simp
  have c: "verifier_fallback env_offline (AnswerVerifierPrompt threshold_question) =
             Inl (missing_key OpenRouter)"
    by code_simp
  obtain r where r: "reviewQuestion env_offline threshold_question = Inr r"
    by (simp add: reviewQuestion_eq)
  have "map_sum id status (reviewQuestion env_offline threshold_question) = Inr ''done''"
    by code_simp
  then have d: "status r = ''done''"
    by (simp add: r)
  from verifier_failure_escalates[OF a b c r d] a b c r d show ?thesis by blast
qed

text \<open>
  Claim C2, as stated, fails: the default of a failed Conflict Analyzer recommends the
  placeholder \<open>?\<close>, a non-empty string, and the chain of \<open>||\<close> takes it as the
  final answer although the Answer Verifier chose option B.
\<close>

theorem placeholder_answer_counterexample:
  "map_sum id status (reviewQuestion env_verified threshold_question) = Inr ''done'' \<and>
   map_sum id finalAnswer (reviewQuestion env_verified threshold_question) = Inr (JStr ''?'') \<and>
   finalAnswer_by_priority threshold_question
     (result_of (av_run (run_agents env_verified threshold_question)))
     (result_of (ca_run (run_agents env_verified threshold_question))) = JStr ''B''"
  by code_simp

text \<open>
  Claim C2, amended. In a completed review the final answer is the first truthy value
  among the recommendation of the Conflict Analyzer (\<open>undefined\<close> when it did not
  run), the option chosen by the Answer Verifier (\<open>undefined\<close> when it did not run)
  and the final answer of the question, else the manual answer. The placeholder \<open>?\<close>
  of a default counts as an answer: after a failed Conflict Analyzer the final answer is
  \<open>?\<close>, and so it is after a failed Answer Verifier when no recommendation is truthy.
\<close>

theorem finalAnswer_priority:
  assumes "reviewQuestion env q = Inr r" and "status r = ''done''"
    and "recommended = get_prop (result_of (ca_run (run_agents env q))) ''finalRecommendedAnswer''"
    and "chosen = get_prop (result_of (av_run (run_agents env q))) ''correctAnswer''"
  shows "finalAnswer r =
           (if truthy recommended then recommended
            else if truthy chosen then chosen
            else if q_finalAnswer q \<noteq> [] then JStr (q_finalAnswer q)
            else JStr (q_rightOption q)) \<and>
         (ca_run (run_agents env q) = None \<longrightarrow> recommended = JUndefined) \<and>
         (av_run (run_agents env q) = None \<longrightarrow> chosen = JUndefined) \<and>
         (\<forall>e. result_of (ca_run (run_agents env q)) = conflictAnalyzer_default e \<longrightarrow>
              finalAnswer r = JStr ''?'') \<and>
         (\<forall>e. result_of (av_run (run_agents env q)) = answerVerifier_default e \<longrightarrow>
              \<not> truthy recommended \<longrightarrow> finalAnswer r = JStr ''?'')"
proof -
  have body: "snd (review_try env q) = Inr r"
    using assms(1,2) by (rule done_is_try)
  have fa: "finalAnswer r =
           (if truthy recommended then recommended
            else if truthy chosen then chosen
            else if q_finalAnswer q \<noteq> [] then JStr (q_finalAnswer q)
            else JStr (q_rightOption q))"
    using review_try_done(5)[OF body]
    by (simp add: finalAnswer_of_def js_or_def assms(3,4))
  have "recommended = JUndefined" if "ca_run (run_agents env q) = None"
    using that by (simp add: assms(3) result_of_def)
  moreover have "chosen = JUndefined" if "av_run (run_agents env q) = None"
    using that by (simp add: assms(4) result_of_def)
  moreover have "finalAnswer r = JStr ''?''"
    if "result_of (ca_run (run_agents env q)) = conflictAnalyzer_default e" for e
    using that fa by (simp add: assms(3) conflictAnalyzer_default_def)
  moreover have "finalAnswer r = JStr ''?''"
    if "result_of (av_run (run_agents env q)) = answerVerifier_default e"
      and "\<not> truthy recommended" for e
    using that fa by (simp add: assms(4) answerVerifier_default_def)
  ultimately show ?thesis using fa by blast
qed

theorem finalAnswer_priority_witness:
  "\<exists>r. reviewQuestion env_verified explained_question = Inr r \<and> status r = ''done'' \<and>
       ca_run (run_agents env_verified explained_question) = None \<and>
       finalAnswer r = JStr ''B''"
proof -
  obtain r where r: "reviewQuestion env_verified explained_question = Inr r"
    by (simp add: reviewQuestion_eq)
  have "map_sum id status (reviewQuestion env_verified explained_question) = Inr ''done''"
    by code_simp
  then have d: "status r = ''done''"
    by (simp add: r)
  have none: "ca_run (run_agents env_verified explained_question) = None"
    and chosen: "get_prop (result_of (av_run (run_agents env_verified explained_question)))
                   ''correctAnswer'' = JStr ''B''"
    by code_simp+
  from finalAnswer_priority[OF r d refl refl] none chosen
  have "finalAnswer r = JStr ''B''" by simp
  with r d none show ?thesis by blast
qed

text \<open>
  Claim C3, as stated, fails: with every call failing, the Answer Verifier makes two
  fallback calls, to the smart tier of the same provider and to the other provider,
  before it returns its default.
\<close>

theorem one_fallback_hop_counterexample:
  "isl (verifier_first env_offline (AnswerVerifierPrompt threshold_question)) \<and>
   calls (answerVerifier env_offline threshold_question) =
     [(Groq, Reason), (Groq, Smart), (OpenRouter, Smart)] \<and>
   fallback_hops (answerVerifier env_offline threshold_question) = 2 \<and>
   result (answerVerifier env_offline threshold_question) =
     answerVerifier_default (missing_key OpenRouter)"
  by code_simp

text \<open>
  Claim C3, amended, for the Answer Verifier. Its outer \<open>try\<close> block calls the
  reasoning tier, calls the smart tier of the same provider when that call fails, parses
  the text and logs the result. When the block fails, at the calls, the parse or the log
  line, the verifier calls the smart tier of the other provider, once and last, and it
  returns its default only when that call, its parse or its log line fails too. So a
  failure is followed by one or two fallback calls, never none and never more than two,
  three calls in all at most.
\<close>

theorem verifier_fallback_chain:
  assumes "msgs = AnswerVerifierPrompt q" and "av = answerVerifier env q"
  shows "verifier_primary env msgs =
           then_try
             (then_try
                (case verifier_first env msgs of
                   Inr raw \<Rightarrow> Inr raw
                 | Inl e \<Rightarrow> callLLM env msgs Groq Smart (1 / 10))
                (parseJSON env))
             (\<lambda>res. logging (verifier_line res) res) \<and>
         verifier_fallback env msgs =
           then_try (then_try (callLLM env msgs OpenRouter Smart (1 / 10)) (parseJSON env))
             (\<lambda>res. logging (verifier_fallback_line res) res) \<and>
         calls av =
           (Groq, Reason) #
           (if isl (verifier_first env msgs) then [(Groq, Smart)] else []) @
           (if isl (verifier_primary env msgs) then [(OpenRouter, Smart)] else []) \<and>
         (isl (verifier_first env msgs) \<or> isl (verifier_primary env msgs) \<longrightarrow>
            fallback_hops av \<in> {1, 2}) \<and>
         (\<not> isl (verifier_first env msgs) \<and> \<not> isl (verifier_primary env msgs) \<longrightarrow>
            fallback_hops av = 0) \<and>
         (\<forall>res. verifier_primary env msgs = Inr res \<longrightarrow>
            result av = res \<and> finished av = [verifier_line res]) \<and>
         (\<forall>res. isl (verifier_primary env msgs) \<and> verifier_fallback env msgs = Inr res \<longrightarrow>
            result av = res \<and> finished av = [verifier_fallback_line res]) \<and>
         (\<forall>e. isl (verifier_primary env msgs) \<and> verifier_fallback env msgs = Inl e \<longrightarrow>
            result av = answerVerifier_default e \<and> finished av = [AVFailed (message e)] \<and>
            fallback_hops av \<in> {1, 2} \<and> last (calls av) = (OpenRouter, Smart)) \<and>
         (\<forall>e. finished av = [AVFailed (message e)] \<longrightarrow>
            isl (verifier_primary env msgs) \<and> isl (verifier_fallback env msgs) \<and>
            fallback_hops av \<in> {1, 2} \<and> last (calls av) = (OpenRouter, Smart))"
proof -
  have primary: "verifier_primary env msgs =
           then_try
             (then_try
                (case verifier_first env msgs of
                   Inr raw \<Rightarrow> Inr raw
                 | Inl e \<Rightarrow> callLLM env msgs Groq Smart (1 / 10))
                (parseJSON env))
             (\<lambda>res. logging (verifier_line res) res)"
    by (simp add: verifier_primary_def verifier_primary_attempt_def attempt_then_def
        attempt_catch_def call_attempt_def verifier_first_def split: sum.splits)
  have fallback: "verifier_fallback env msgs =
           then_try (then_try (callLLM env msgs OpenRouter Smart (1 / 10)) (parseJSON env))
             (\<lambda>res. logging (verifier_fallback_line res) res)"
    by (simp add: verifier_fallback_def verifier_fallback_attempt_def try_block_def
        attempt_then_def call_attempt_def)
  have tried: "verifier_tried env msgs =
      (Groq, Reason) # (if isl (verifier_first env msgs) then [(Groq, Smart)] else [])"
    by (simp add: verifier_tried_def verifier_primary_attempt_def attempt_then_def
        attempt_catch_def call_attempt_def verifier_first_def split: sum.splits)
  have other: "snd (verifier_fallback_attempt env msgs) = [(OpenRouter, Smart)]"
    by (simp add: verifier_fallback_attempt_def try_block_def attempt_then_def
        call_attempt_def)
  have made: "snd (verifier_attempt env msgs) =
      verifier_tried env msgs @
      (if isl (verifier_primary env msgs) then snd (verifier_fallback_attempt env msgs) else [])"
    by (simp add: verifier_attempt_def attempt_catch_def verifier_primary_def
        verifier_tried_def split: sum.splits)
  have "calls av = snd (verifier_attempt env msgs)"
    unfolding assms(2)
    by (simp add: answerVerifier_def Let_def assms(1)[symmetric] split: sum.splits)
  then have sequence: "calls av =
           (Groq, Reason) #
           (if isl (verifier_first env msgs) then [(Groq, Smart)] else []) @
           (if isl (verifier_primary env msgs) then [(OpenRouter, Smart)] else [])"
    using made tried other by simp
  have hops: "isl (verifier_first env msgs) \<or> isl (verifier_primary env msgs) \<longrightarrow>
            fallback_hops av \<in> {1, 2}"
    and none: "\<not> isl (verifier_first env msgs) \<and> \<not> isl (verifier_primary env msgs) \<longrightarrow>
            fallback_hops av = 0"
    and last_call: "isl (verifier_primary env msgs) \<longrightarrow> last (calls av) = (OpenRouter, Smart)"
    by (simp_all add: fallback_hops_def sequence)
  have settled: "result av = res \<and> finished av = [verifier_line res]"
    if "verifier_primary env msgs = Inr res" for res
    using that unfolding assms(2)
    by (simp add: answerVerifier_def Let_def assms(1)[symmetric])
  have rescued: "result av = res \<and> finished av = [verifier_fallback_line res]"
    if "isl (verifier_primary env msgs) \<and> verifier_fallback env msgs = Inr res" for res
    using that unfolding assms(2)
    by (auto simp: answerVerifier_def Let_def assms(1)[symmetric] isl_def)
  have failed: "result av = answerVerifier_default e \<and> finished av = [AVFailed (message e)] \<and>
            fallback_hops av \<in> {1, 2} \<and> last (calls av) = (OpenRouter, Smart)"
    if h: "isl (verifier_primary env msgs) \<and> verifier_fallback env msgs = Inl e" for e
  proof -
    have "result av = answerVerifier_default e \<and> finished av = [AVFailed (message e)]"
      using h unfolding assms(2)
      by (auto simp: answerVerifier_def Let_def assms(1)[symmetric] isl_def)
    with h hops last_call show ?thesis by simp
  qed
  have line: "isl (verifier_primary env msgs) \<and> isl (verifier_fallback env msgs) \<and>
            fallback_hops av \<in> {1, 2} \<and> last (calls av) = (OpenRouter, Smart)"
    if h: "finished av = [AVFailed (message e)]" for e
  proof -
    have "isl (verifier_primary env msgs) \<and> isl (verifier_fallback env msgs)"
      using h unfolding assms(2)
      by (auto simp: answerVerifier_def Let_def assms(1)[symmetric] verifier_line_def
          verifier_fallback_line_def split: sum.splits)
    with hops last_call show ?thesis by simp
  qed
  from primary fallback sequence hops none settled rescued failed line show ?thesis
    by blast
qed

lemma verdict_facts:
  "isl (verifier_first env_unprintable_verdict (AnswerVerifierPrompt threshold_question)) = False"
  "verifier_primary env_unprintable_verdict (AnswerVerifierPrompt threshold_question) =
     Inl unprintable"
  "verifier_fallback env_unprintable_verdict (AnswerVerifierPrompt threshold_question) =
     Inr (JObj [(''correctAnswer'', JStr ''B''), (''verdict'', JObj [(''toString'', JNum 1)])])"
  "isl (verifier_first env_offline (AnswerVerifierPrompt threshold_question))"
  "isl (verifier_primary env_offline (AnswerVerifierPrompt threshold_question))"
  "verifier_fallback env_offline (AnswerVerifierPrompt threshold_question) =
     Inl (missing_key OpenRouter)"
  "verifier_primary env_verified (AnswerVerifierPrompt threshold_question) =
     Inr (JObj [(''correctAnswer'', JStr ''B''), (''verdict'', JStr ''ai_correct'')])"
  "isl (verifier_first env_verified (AnswerVerifierPrompt threshold_question)) = False"
  by code_simp+

theorem verifier_fallback_chain_witness:
  "calls (answerVerifier env_offline threshold_question) =
     [(Groq, Reason), (Groq, Smart), (OpenRouter, Smart)] \<and>
   result (answerVerifier env_offline threshold_question) =
     answerVerifier_default (missing_key OpenRouter) \<and>
   calls (answerVerifier env_unprintable_verdict threshold_question) =
     [(Groq, Reason), (OpenRouter, Smart)] \<and>
   fallback_hops (answerVerifier env_unprintable_verdict threshold_question) = 1 \<and>
   finished (answerVerifier env_unprintable_verdict threshold_question) =
     [AVFallbackDone (JStr ''B'')] \<and>
   calls (answerVerifier env_verified threshold_question) = [(Groq, Reason)] \<and>
   fallback_hops (answerVerifier env_verified threshold_question) = 0 \<and>
   get_prop (result (answerVerifier env_verified threshold_question)) ''correctAnswer'' =
     JStr ''B''"
proof -
  from verifier_fallback_chain[OF refl refl, of env_offline threshold_question]
    verdict_facts(4,5,6)
  have one: "calls (answerVerifier env_offline threshold_question) =
       [(Groq, Reason), (Groq, Smart), (OpenRouter, Smart)] \<and>
     result (answerVerifier env_offline threshold_question) =
       answerVerifier_default (missing_key OpenRouter)"
    by simp
  from verifier_fallback_chain[OF refl refl, of env_unprintable_verdict threshold_question]
    verdict_facts(1,2,3)
  have two: "calls (answerVerifier env_unprintable_verdict threshold_question) =
       [(Groq, Reason), (OpenRouter, Smart)] \<and>
     fallback_hops (answerVerifier env_unprintable_verdict threshold_question) = 1 \<and>
     finished (answerVerifier env_unprintable_verdict threshold_question) =
       [AVFallbackDone (JStr ''B'')]"
    by (simp add: fallback_hops_def verifier_fallback_line_def)
  from verifier_fallback_chain[OF refl refl, of env_verified threshold_question]
    verdict_facts(7,8)
  have three: "calls (answerVerifier env_verified threshold_question) = [(Groq, Reason)] \<and>
     fallback_hops (answerVerifier env_verified threshold_question) = 0 \<and>
     get_prop (result (answerVerifier env_verified threshold_question)) ''correctAnswer'' =
       JStr ''B''"
    by (simp add: fallback_hops_def)
  from one two three show ?thesis by blast
qed

text \<open>The loop of the batch endpoint, from any index and state.\<close>

declare review_loop.simps [simp del]

lemma review_step_appends:
  "review_step review q i st =
     \<lparr> written = written st @ question_events review q i,
       results = results st @
         [case review i q of Inr r \<Rightarrow> ResultEntry i r | Inl e \<Rightarrow> ErrorEntry i (message e)] \<rparr>"
  by (simp add: review_step_def question_events_def Let_def split: sum.splits)

lemma review_loop_state:
  "i \<le> length questions \<Longrightarrow>
   review_loop review questions i st =
     \<lparr> written = written st @
         concat (map (\<lambda>j. question_events review (questions ! j) j) [i..<length questions]),
       results = results st @
         map (\<lambda>j. case review j (questions ! j) of
                     Inr r \<Rightarrow> ResultEntry j r
                   | Inl e \<Rightarrow> ErrorEntry j (message e)) [i..<length questions] \<rparr>"
proof (induction review questions i st rule: review_loop.induct)
  case (1 review questions i st)
  show ?case
  proof (cases "i < length questions")
    case True
    then have "review_loop review questions i st =
        review_loop review questions (Suc i) (review_step review (questions ! i) i st)"
      by (simp add: review_loop.simps[of review questions i st])
    also have "\<dots> = \<lparr> written = written (review_step review (questions ! i) i st) @
         concat (map (\<lambda>j. question_events review (questions ! j) j) [Suc i..<length questions]),
       results = results (review_step review (questions ! i) i st) @
         map (\<lambda>j. case review j (questions ! j) of
                     Inr r \<Rightarrow> ResultEntry j r
                   | Inl e \<Rightarrow> ErrorEntry j (message e)) [Suc i..<length questions] \<rparr>"
      using "1.IH"[OF True] True by simp
    finally show ?thesis
      using True by (simp add: review_step_appends upt_conv_Cons)
  next
    case False
    then have stop: "review_loop review questions i st = st"
      by (simp add: review_loop.simps[of review questions i st])
    from False have none: "[i..<length questions] = []"
      by simp
    show ?thesis
      unfolding none stop by simp
  qed
qed

text \<open>
  Claim C7. For a non-empty sequence of questions the batch endpoint writes, after the
  start event, the events of question 0, then those of question 1, and so on, and then
  the complete event with one entry for each question: the entry at index \<open>i\<close>
  carries the index \<open>i\<close> and is the result of reviewing question \<open>i\<close>, or the
  error entry when that review throws, whatever happened to the questions before it.
\<close>

theorem review_all_in_order:
  assumes "questions \<noteq> []"
  shows "\<exists>rs. review_all review questions =
           EventStream (StartEvent (length questions) #
             concat (map (\<lambda>i. question_events review (questions ! i) i) [0..<length questions]) @
             [CompleteEvent (length questions) rs]) \<and>
         length rs = length questions \<and>
         (\<forall>i < length questions.
            entry_index (rs ! i) = i \<and>
            rs ! i = (case review i (questions ! i) of
                        Inr r \<Rightarrow> ResultEntry i r
                      | Inl e \<Rightarrow> ErrorEntry i (message e)) \<and>
            (isl (review i (questions ! i)) \<longrightarrow> entry_status (rs ! i) = ''error''))"
proof -
  let ?rs = "map (\<lambda>j. case review j (questions ! j) of
                     Inr r \<Rightarrow> ResultEntry j r
                   | Inl e \<Rightarrow> ErrorEntry j (message e)) [0..<length questions]"
  have "review_all review questions =
           EventStream (StartEvent (length questions) #
             concat (map (\<lambda>i. question_events review (questions ! i) i) [0..<length questions]) @
             [CompleteEvent (length questions) ?rs])"
    using assms by (simp add: review_all_def review_loop_state Let_def)
  moreover have "length ?rs = length questions" by simp
  moreover have "entry_index (?rs ! i) = i \<and>
            ?rs ! i = (case review i (questions ! i) of
                        Inr r \<Rightarrow> ResultEntry i r
                      | Inl e \<Rightarrow> ErrorEntry i (message e)) \<and>
            (isl (review i (questions ! i)) \<longrightarrow> entry_status (?rs ! i) = ''error'')"
    if "i < length questions" for i
    using that by (simp split: sum.splits)
  ultimately show ?thesis by blast
qed

theorem review_all_in_order_witness:
  "[threshold_question, explained_question] \<noteq> [] \<and>
   (\<exists>evs rs. review_all flaky_review [threshold_question, explained_question] =
           EventStream (StartEvent 2 # evs @ [CompleteEvent 2 rs]) \<and>
         length rs = 2 \<and> rs ! 0 = ErrorEntry 0 ''socket hang up'' \<and>
         entry_status (rs ! 0) = ''error'' \<and> entry_index (rs ! 1) = 1)"
proof -
  have a: "[threshold_question, explained_question] \<noteq> []"
    by simp
  from review_all_in_order[OF a, of flaky_review] obtain rs where
    rs: "review_all flaky_review [threshold_question, explained_question] =
           EventStream (StartEvent (length [threshold_question, explained_question]) #
             concat (map (\<lambda>i. question_events flaky_review
                                 ([threshold_question, explained_question] ! i) i)
                       [0..<length [threshold_question, explained_question]]) @
             [CompleteEvent (length [threshold_question, explained_question]) rs])"
    and len: "length rs = length [threshold_question, explained_question]"
    and each: "\<forall>i < length [threshold_question, explained_question].
            entry_index (rs ! i) = i \<and>
            rs ! i = (case flaky_review i ([threshold_question, explained_question] ! i) of
                        Inr r \<Rightarrow> ResultEntry i r
                      | Inl e \<Rightarrow> ErrorEntry i (message e)) \<and>
            (isl (flaky_review i ([threshold_question, explained_question] ! i)) \<longrightarrow>
             entry_status (rs ! i) = ''error'')"
    by blast
  from each have "0 < length [threshold_question, explained_question] \<longrightarrow>
      rs ! 0 = (case flaky_review 0 ([threshold_question, explained_question] ! 0) of
                  Inr r \<Rightarrow> ResultEntry 0 r
                | Inl e \<Rightarrow> ErrorEntry 0 (message e))"
    by blast
  then have first: "rs ! 0 = ErrorEntry 0 ''socket hang up''"
    by (simp add: flaky_review_def)
  from each have "1 < length [threshold_question, explained_question] \<longrightarrow>
      entry_index (rs ! 1) = 1"
    by blast
  then have second: "entry_index (rs ! 1) = 1"
    by simp
  from rs have "review_all flaky_review [threshold_question, explained_question] =
      EventStream (StartEvent 2 #
        concat (map (\<lambda>i. question_events flaky_review
                         ([threshold_question, explained_question] ! i) i)
                  [0..<length [threshold_question, explained_question]]) @
        [CompleteEvent 2 rs])"
    by simp
  moreover from len have "length rs = 2"
    by simp
  moreover from first have "entry_status (rs ! 0) = ''error''"
    by simp
  ultimately show ?thesis
    using first second a by blast
qed

section \<open>The parser on a wrapped response\<close>

subsection \<open>Patterns and appended text\<close>

lemma take_append_pattern:
  assumes "x \<notin> set (tl p)" and "u \<noteq> []"
  shows "(take (length p) (u @ x # rest) = p) = (take (length p) u = p)"
proof (cases p)
  case Nil
  then show ?thesis by simp
next
  case (Cons a p')
  obtain c cs where u: "u = c # cs"
    using assms(2) by (cases u) auto
  have x: "x \<notin> set p'"
    using assms(1) Cons by simp
  have "(take (length p') (cs @ x # rest) = p') = (take (length p') cs = p')"
  proof (cases "length p' \<le> length cs")
    case True
    then show ?thesis by simp
  next
    case False
    then have short: "length cs < length p'" by simp
    then have expand: "take (length p') (cs @ x # rest) =
        cs @ x # take (length p' - Suc (length cs)) rest"
      by (simp add: take_Cons')
    have "take (length p') (cs @ x # rest) \<noteq> p'"
    proof
      assume "take (length p') (cs @ x # rest) = p'"
      then have "p' = cs @ x # take (length p' - Suc (length cs)) rest"
        using expand by simp
      then have "x \<in> set p'"
        by (simp add: in_set_conv_decomp) blast
      with x show False by simp
    qed
    moreover have "take (length p') cs \<noteq> p'"
    proof
      assume "take (length p') cs = p'"
      then have "length (take (length p') cs) = length p'"
        by simp
      with short show False by simp
    qed
    ultimately show ?thesis by simp
  qed
  then show ?thesis
    by (simp add: Cons u)
qed

lemma starts_with_ci_append:
  assumes "to_lower x \<notin> set (tl p)" and "u \<noteq> []"
  shows "starts_with_ci p (u @ x # rest) = starts_with_ci p u"
proof -
  have "map to_lower (take (length p) (u @ x # rest)) =
          take (length p) (map to_lower (u @ x # rest))"
    by (rule take_map[symmetric])
  then have "map to_lower (take (length p) (u @ x # rest)) =
          take (length p) (map to_lower u @ to_lower x # map to_lower rest)"
    by simp
  moreover have "map to_lower (take (length p) u) = take (length p) (map to_lower u)"
    by (rule take_map[symmetric])
  moreover have "map to_lower u \<noteq> []"
    using assms(2) by simp
  ultimately show ?thesis
    unfolding starts_with_ci_def
    using take_append_pattern[OF assms(1), of "map to_lower u" "map to_lower rest"]
    by simp
qed

lemma starts_with_ci_length: "starts_with_ci p s \<Longrightarrow> length p \<le> length s"
proof -
  assume "starts_with_ci p s"
  then have "length (map to_lower (take (length p) s)) = length p"
    by (simp only: starts_with_ci_def)
  then show ?thesis
    by simp
qed

lemma to_lower_fixed [simp]:
  "to_lower CHR ''<'' = CHR ''<''" "to_lower nl = nl" "to_lower CHR ''`'' = CHR ''`''"
  by (simp_all add: to_lower_def nl_def)

lemma to_lower_cases:
  "to_lower c = c \<or> to_lower c \<in> set ''abcdefghijklmnopqrstuvwxyz''"
proof (cases "map_of (zip ''ABCDEFGHIJKLMNOPQRSTUVWXYZ'' ''abcdefghijklmnopqrstuvwxyz'') c")
  case None
  then have "to_lower c = c"
    by (simp only: to_lower_def option.case)
  then show ?thesis ..
next
  case (Some l)
  then have "(c, l) \<in> set (zip ''ABCDEFGHIJKLMNOPQRSTUVWXYZ'' ''abcdefghijklmnopqrstuvwxyz'')"
    by (rule map_of_SomeD)
  then have "l \<in> set ''abcdefghijklmnopqrstuvwxyz''"
    by (rule set_zip_rightD)
  moreover have "to_lower c = l"
    using Some by (simp only: to_lower_def option.case)
  ultimately show ?thesis by simp
qed

lemma to_lower_backtick: "to_lower c = CHR ''`'' \<Longrightarrow> c = CHR ''`''"
  using to_lower_cases[of c] by auto

subsection \<open>Matches lie inside the text\<close>

lemma find_ci_bound:
  "find_ci p s = Some i \<Longrightarrow> p \<noteq> [] \<Longrightarrow> i + length p \<le> length s"
proof (induction s arbitrary: i)
  case Nil
  then show ?case by simp
next
  case (Cons c cs)
  show ?case
  proof (cases "starts_with_ci p (c # cs)")
    case True
    then show ?thesis
      using Cons.prems starts_with_ci_length[OF True] by simp
  next
    case False
    then show ?thesis
      using Cons by auto
  qed
qed

lemma lookahead_length: "take 1 (drop k s) = [c] \<Longrightarrow> Suc k \<le> length s"
  by (cases "drop k s") (auto simp: Suc_le_eq dest: arg_cong[where f = length])

lemma fence_json_match_fits: "fence_json_match s = Some n \<Longrightarrow> 0 < n \<and> n \<le> length s"
  using starts_with_ci_length[of "''```json''" s] lookahead_length[of 7 s nl]
  by (auto simp: fence_json_match_def split: if_splits)

lemma take_eq_length: "take k s = p \<Longrightarrow> length p = k \<Longrightarrow> k \<le> length s"
  by (auto dest: arg_cong[where f = length])

lemma fence_match_fits: "fence_match s = Some n \<Longrightarrow> 0 < n \<and> n \<le> length s"
  using take_eq_length[of 3 s "''```''"] lookahead_length[of 3 s nl]
  by (auto simp: fence_match_def split: if_splits)

lemma think_match_fits: "think_match s = Some n \<Longrightarrow> 0 < n \<and> n \<le> length s"
  using find_ci_bound[of "''</think>''" "drop 7 s"]
  by (auto simp: think_match_def split: if_splits)

subsection \<open>Replacing in a text with something appended\<close>

lemma replace_all_match:
  "m s = Some n \<Longrightarrow> 0 < n \<Longrightarrow> replace_all m s = replace_all m (drop n s)"
  by (cases s; cases n) auto

lemma replace_all_append:
  assumes same: "\<And>u. u \<noteq> [] \<Longrightarrow> m (u @ ys) = m u"
    and fits: "\<And>u n. m u = Some n \<Longrightarrow> 0 < n \<and> n \<le> length u"
  shows "replace_all m (xs @ ys) = replace_all m xs @ replace_all m ys"
proof (induction xs rule: length_induct)
  case (1 xs)
  show ?case
  proof (cases xs)
    case Nil
    then show ?thesis by simp
  next
    case (Cons c cs)
    have head: "m (c # cs @ ys) = m (c # cs)"
      using same[of "c # cs"] by simp
    show ?thesis
    proof (cases "m (c # cs)")
      case None
      have "replace_all m (cs @ ys) = replace_all m cs @ replace_all m ys"
        using 1 Cons by simp
      then show ?thesis
        by (simp add: Cons head None)
    next
      case (Some n)
      then have n: "0 < n" "n \<le> Suc (length cs)"
        using fits[of "c # cs" n] by simp_all
      have "replace_all m (drop (n - 1) cs @ ys) =
              replace_all m (drop (n - 1) cs) @ replace_all m ys"
        using 1 Cons by simp
      moreover have "drop (n - 1) (cs @ ys) = drop (n - 1) cs @ ys"
        using n by simp
      ultimately show ?thesis
        by (simp add: Cons head Some)
    qed
  qed
qed


subsection \<open>Text that no fence can start in\<close>

lemma fence_json_match_other: "c \<noteq> CHR ''`'' \<Longrightarrow> fence_json_match (c # s) = None"
  by (auto simp: fence_json_match_def starts_with_ci_def dest: to_lower_backtick)

lemma fence_match_other: "c \<noteq> CHR ''`'' \<Longrightarrow> fence_match (c # s) = None"
  by (simp add: fence_match_def)

lemma replace_all_keep:
  assumes "\<And>c s. c \<in> set xs \<Longrightarrow> m (c # s) = None"
  shows "replace_all m (xs @ ys) = xs @ replace_all m ys"
  using assms by (induction xs) simp_all

lemma lookahead_append:
  assumes "k \<le> length u" and "x \<noteq> c"
  shows "(take 1 (drop k (u @ x # rest)) = [c]) = (take 1 (drop k u) = [c])"
proof (cases "drop k u")
  case Nil
  then have "length u = k"
    using assms(1) by simp
  then show ?thesis
    using assms(2) Nil by simp
next
  case (Cons d ds)
  then have "drop k (u @ x # rest) = d # ds @ x # rest"
    using assms(1) by simp
  then show ?thesis
    using Cons by simp
qed

lemma fence_json_match_append:
  assumes "u \<noteq> []" and "to_lower x \<notin> set ''``json''" and "x \<noteq> nl"
  shows "fence_json_match (u @ x # rest) = fence_json_match u"
proof -
  have start: "starts_with_ci ''```json'' (u @ x # rest) = starts_with_ci ''```json'' u"
    using assms(1,2) by (intro starts_with_ci_append) simp_all
  show ?thesis
  proof (cases "starts_with_ci ''```json'' u")
    case False
    then show ?thesis
      using start by (simp add: fence_json_match_def)
  next
    case True
    then have "7 \<le> length u"
      using starts_with_ci_length[of "''```json''" u] by simp
    then have "(take 1 (drop 7 (u @ x # rest)) = [nl]) = (take 1 (drop 7 u) = [nl])"
      using assms(3) by (rule lookahead_append)
    then show ?thesis
      using start by (simp add: fence_json_match_def)
  qed
qed

lemma fence_match_append:
  assumes "u \<noteq> []" and "x \<noteq> CHR ''`''" and "x \<noteq> nl"
  shows "fence_match (u @ x # rest) = fence_match u"
proof -
  have len: "length ''```'' = 3"
    by simp
  have "x \<notin> set (tl ''```'')"
    using assms(2) by simp
  from take_append_pattern[OF this assms(1), of rest, unfolded len]
  have start: "(take 3 (u @ x # rest) = ''```'') = (take 3 u = ''```'')" .
  show ?thesis
  proof (cases "take 3 u = ''```''")
    case False
    then show ?thesis
      using start by (simp add: fence_match_def)
  next
    case True
    then have "3 \<le> length u"
      using take_eq_length[of 3 u "''```''"] by simp
    then have "(take 1 (drop 3 (u @ x # rest)) = [nl]) = (take 1 (drop 3 u) = [nl])"
      using assms(3) by (rule lookahead_append)
    then show ?thesis
      using start True by (simp add: fence_match_def)
  qed
qed

lemma lt_not_nl [simp]: "CHR ''<'' \<noteq> nl"
  by (simp add: nl_def)

lemma replace_all_fence_json_before_marker:
  "replace_all fence_json_match (xs @ CHR ''<'' # rest) =
     replace_all fence_json_match xs @ replace_all fence_json_match (CHR ''<'' # rest)"
  by (rule replace_all_append) (simp_all add: fence_json_match_append fence_json_match_fits)

lemma replace_all_fence_before_marker:
  "replace_all fence_match (xs @ CHR ''<'' # rest) =
     replace_all fence_match xs @ replace_all fence_match (CHR ''<'' # rest)"
  by (rule replace_all_append) (simp_all add: fence_match_append fence_match_fits)

text \<open>The reasoning block in front of a text, under the two fence replacements.\<close>

lemma fence_json_reasoning:
  "replace_all fence_json_match (with_reasoning thought s) =
     with_reasoning (replace_all fence_json_match thought) (replace_all fence_json_match s)"
proof -
  have "replace_all fence_json_match (''<think>'' @ (thought @ ''</think>'' @ s)) =
      ''<think>'' @ replace_all fence_json_match (thought @ ''</think>'' @ s)"
    by (rule replace_all_keep) (auto simp: fence_json_match_other)
  moreover have "replace_all fence_json_match (thought @ ''</think>'' @ s) =
      replace_all fence_json_match thought @ replace_all fence_json_match (''</think>'' @ s)"
    using replace_all_fence_json_before_marker[of thought "''/think>'' @ s"] by simp
  moreover have "replace_all fence_json_match (''</think>'' @ s) =
      ''</think>'' @ replace_all fence_json_match s"
    by (rule replace_all_keep) (auto simp: fence_json_match_other)
  ultimately show ?thesis
    by (simp add: with_reasoning_def)
qed

lemma fence_reasoning:
  "replace_all fence_match (with_reasoning thought s) =
     with_reasoning (replace_all fence_match thought) (replace_all fence_match s)"
proof -
  have "replace_all fence_match (''<think>'' @ (thought @ ''</think>'' @ s)) =
      ''<think>'' @ replace_all fence_match (thought @ ''</think>'' @ s)"
    by (rule replace_all_keep) (auto simp: fence_match_other)
  moreover have "replace_all fence_match (thought @ ''</think>'' @ s) =
      replace_all fence_match thought @ replace_all fence_match (''</think>'' @ s)"
    using replace_all_fence_before_marker[of thought "''/think>'' @ s"] by simp
  moreover have "replace_all fence_match (''</think>'' @ s) =
      ''</think>'' @ replace_all fence_match s"
    by (rule replace_all_keep) (auto simp: fence_match_other)
  ultimately show ?thesis
    by (simp add: with_reasoning_def)
qed


subsection \<open>The fence around a text\<close>

lemma nl_not_backtick [simp]: "nl \<noteq> CHR ''`''" "CHR ''`'' \<noteq> nl"
  by (simp_all add: nl_def)

lemma nl_not_in_patterns:
  "nl \<notin> set ''``json''" "nl \<notin> set ''think>''" "nl \<notin> set ''/think>''"
  by (simp_all add: nl_def)

lemma fence_json_match_none: "(fence_json_match s = None) = (\<not> starts_with_ci ''```json'' s)"
  by (simp add: fence_json_match_def)

lemma fence_json_short: "length s < 7 \<Longrightarrow> fence_json_match s = None"
  using starts_with_ci_length[of "''```json''" s] by (auto simp: fence_json_match_none)

lemma fence_json_opening_tagged:
  assumes "map to_lower tag = ''json''"
  shows "replace_all fence_json_match (''```'' @ tag @ nl # s) = replace_all fence_json_match s"
proof -
  have "length (map to_lower tag) = 4"
    by (simp only: assms) simp
  then have len: "length tag = 4"
    by simp
  then have front: "take 7 (''```'' @ tag @ nl # s) = ''```'' @ tag"
    by simp
  have rest: "drop 7 (''```'' @ tag @ nl # s) = nl # s"
    using len by simp
  have "starts_with_ci ''```json'' (''```'' @ tag @ nl # s)"
    using assms len by (simp add: starts_with_ci_def)
  then have "fence_json_match (''```'' @ tag @ nl # s) = Some 8"
    by (simp only: fence_json_match_def rest) simp
  then have "replace_all fence_json_match (''```'' @ tag @ nl # s) =
      replace_all fence_json_match (drop 8 (''```'' @ tag @ nl # s))"
    by (rule replace_all_match) simp
  moreover have "drop 8 (''```'' @ tag @ nl # s) = s"
    using len by simp
  ultimately show ?thesis
    by (simp only:)
qed

lemma fence_json_opening_bare:
  "replace_all fence_json_match (''```'' @ nl # s) = ''```'' @ nl # replace_all fence_json_match s"
proof -
  have "nl \<noteq> CHR ''j''"
    by (simp add: nl_def)
  then show ?thesis
    by (simp add: fence_json_match_def starts_with_ci_def)
qed

lemma fence_opening_bare: "replace_all fence_match (''```'' @ nl # s) = replace_all fence_match s"
  by (simp add: fence_match_def)

lemma fence_json_tail: "replace_all fence_json_match (nl # ''```'') = nl # ''```''"
  by (simp add: fence_json_match_other fence_json_short)

lemma fence_json_closing:
  "replace_all fence_json_match (t @ nl # ''```'') = replace_all fence_json_match t @ nl # ''```'' \<or>
   replace_all fence_json_match (t @ nl # ''```'') = replace_all fence_json_match t @ ''```''"
proof (induction t rule: length_induct)
  case (1 t)
  show ?case
  proof (cases t)
    case Nil
    then show ?thesis
      using fence_json_tail by simp
  next
    case (Cons c cs)
    have start: "starts_with_ci ''```json'' (t @ nl # ''```'') = starts_with_ci ''```json'' t"
      using Cons nl_not_in_patterns(1) by (intro starts_with_ci_append) simp_all
    show ?thesis
    proof (cases "fence_json_match t")
      case None
      then have "fence_json_match (t @ nl # ''```'') = None"
        using start by (simp add: fence_json_match_none)
      then have "replace_all fence_json_match (t @ nl # ''```'') =
          c # replace_all fence_json_match (cs @ nl # ''```'')"
        by (simp add: Cons)
      moreover have "replace_all fence_json_match t = c # replace_all fence_json_match cs"
        using None by (simp add: Cons)
      moreover have "length cs < length t"
        by (simp add: Cons)
      ultimately show ?thesis
        using 1 by auto
    next
      case (Some n)
      then have fits: "0 < n" "n \<le> length t"
        using fence_json_match_fits[of t n] by simp_all
      have whole: "starts_with_ci ''```json'' t"
        using Some by (simp add: fence_json_match_def split: if_splits)
      then have long: "7 \<le> length t"
        using starts_with_ci_length[of "''```json''" t] by simp
      have left: "replace_all fence_json_match t = replace_all fence_json_match (drop n t)"
        using Some fits(1) by (rule replace_all_match)
      show ?thesis
      proof (cases "length t = 7")
        case True
        then have "drop 7 t = []" by simp
        then have "n = 7"
          using Some whole by (simp add: fence_json_match_def)
        then have "replace_all fence_json_match t = []"
          using left True by simp
        moreover have "fence_json_match (t @ nl # ''```'') = Some 8"
          using start whole True by (simp add: fence_json_match_def)
        then have "replace_all fence_json_match (t @ nl # ''```'') =
            replace_all fence_json_match (drop 8 (t @ nl # ''```''))"
          by (rule replace_all_match) simp
        then have "replace_all fence_json_match (t @ nl # ''```'') = ''```''"
          using True by (simp add: fence_json_short)
        ultimately show ?thesis by simp
      next
        case False
        then have longer: "8 \<le> length t"
          using long by simp
        then obtain d ds where "drop 7 t = d # ds"
          by (cases "drop 7 t") auto
        then have look: "take 1 (drop 7 (t @ nl # ''```'')) = take 1 (drop 7 t)"
          using long by simp
        have "fence_json_match (t @ nl # ''```'') = fence_json_match t"
          unfolding fence_json_match_def start look ..
        then have "fence_json_match (t @ nl # ''```'') = Some n"
          using Some by simp
        then have "replace_all fence_json_match (t @ nl # ''```'') =
            replace_all fence_json_match (drop n (t @ nl # ''```''))"
          using fits(1) by (rule replace_all_match)
        then have right: "replace_all fence_json_match (t @ nl # ''```'') =
            replace_all fence_json_match (drop n t @ nl # ''```'')"
          using fits(2) by simp
        have "length (drop n t) < length t"
          using fits long by simp
        then show ?thesis
          using 1 left right by auto
      qed
    qed
  qed
qed


lemma fence_match_long: "4 \<le> length t \<Longrightarrow> fence_match (t @ w) = fence_match t"
proof -
  assume long: "4 \<le> length t"
  then have front: "take 3 (t @ w) = take 3 t"
    by simp
  obtain d ds where "drop 3 t = d # ds"
    using long by (cases "drop 3 t") auto
  then have look: "take 1 (drop 3 (t @ w)) = take 1 (drop 3 t)"
    using long by simp
  show ?thesis
    unfolding fence_match_def front look ..
qed

lemma short_text:
  assumes "length t \<le> 3"
  obtains "t = []" | a where "t = [a]" | a b where "t = [a, b]" | a b c where "t = [a, b, c]"
  using assms by (auto simp: le_Suc_eq numeral_3_eq_3 length_Suc_conv)

lemma fence_closing_short:
  assumes "length t \<le> 3" and "w = nl # ''```'' \<or> w = ''```''"
  shows "replace_all fence_match (t @ w) = replace_all fence_match t \<or>
         replace_all fence_match (t @ w) = replace_all fence_match t @ [nl]"
  using assms(1)
proof (cases t rule: short_text)
  case 1
  then show ?thesis
    using assms(2) by (auto simp: fence_match_def)
next
  case (2 a)
  then show ?thesis
    using assms(2) by (auto simp: fence_match_def)
next
  case (3 a b)
  then show ?thesis
    using assms(2) by (auto simp: fence_match_def)
next
  case (4 a b c)
  then show ?thesis
    using assms(2) by (auto simp: fence_match_def)
qed

lemma fence_closing:
  assumes "w = nl # ''```'' \<or> w = ''```''"
  shows "replace_all fence_match (t @ w) = replace_all fence_match t \<or>
         replace_all fence_match (t @ w) = replace_all fence_match t @ [nl]"
proof (induction t rule: length_induct)
  case (1 t)
  show ?case
  proof (cases "length t \<le> 3")
    case True
    then show ?thesis
      using assms by (rule fence_closing_short)
  next
    case False
    then have long: "4 \<le> length t"
      by simp
    then obtain c cs where t: "t = c # cs"
      by (cases t) auto
    have head: "fence_match (t @ w) = fence_match t"
      using long by (rule fence_match_long)
    show ?thesis
    proof (cases "fence_match t")
      case None
      then have "replace_all fence_match (t @ w) = c # replace_all fence_match (cs @ w)"
        using head by (simp add: t)
      moreover have "replace_all fence_match t = c # replace_all fence_match cs"
        using None by (simp add: t)
      moreover have "length cs < length t"
        by (simp add: t)
      ultimately show ?thesis
        using 1 by auto
    next
      case (Some n)
      then have fits: "0 < n" "n \<le> length t"
        using fence_match_fits[of t n] by simp_all
      have "replace_all fence_match (t @ w) = replace_all fence_match (drop n (t @ w))"
        using head Some fits(1) by (intro replace_all_match) simp_all
      then have right: "replace_all fence_match (t @ w) = replace_all fence_match (drop n t @ w)"
        using fits(2) by simp
      have left: "replace_all fence_match t = replace_all fence_match (drop n t)"
        using Some fits(1) by (rule replace_all_match)
      have "length (drop n t) < length t"
        using fits long by simp
      then show ?thesis
        using 1 left right by auto
    qed
  qed
qed


subsection \<open>The reasoning block\<close>

lemma starts_with_ci_self: "map to_lower p = p \<Longrightarrow> starts_with_ci p (p @ s)"
  by (simp add: starts_with_ci_def)

lemma markers_lower:
  "map to_lower ''<think>'' = ''<think>''" "map to_lower ''</think>'' = ''</think>''"
  by (simp_all add: to_lower_def)

lemma find_ci_closing:
  "find_ci ''</think>'' r = None \<Longrightarrow>
   find_ci ''</think>'' (r @ ''</think>'' @ s) = Some (length r)"
proof (induction r)
  case Nil
  have "starts_with_ci ''</think>'' (''</think>'' @ s)"
    using markers_lower(2) by (rule starts_with_ci_self)
  then show ?case
    by (cases "''</think>'' @ s") simp_all
next
  case (Cons c cs)
  from Cons.prems have no: "\<not> starts_with_ci ''</think>'' (c # cs)"
    and rest: "find_ci ''</think>'' cs = None"
    by (simp_all split: if_splits)
  have "starts_with_ci ''</think>'' ((c # cs) @ CHR ''<'' # ''/think>'' @ s) =
      starts_with_ci ''</think>'' (c # cs)"
    by (intro starts_with_ci_append) simp_all
  then have "\<not> starts_with_ci ''</think>'' (c # cs @ ''</think>'' @ s)"
    using no by simp
  then show ?case
    using Cons.IH[OF rest] by simp
qed

lemma think_reasoning:
  assumes "find_ci ''</think>'' r = None"
  shows "replace_all think_match (with_reasoning r s) = replace_all think_match s"
proof -
  have "starts_with_ci ''<think>'' (''<think>'' @ r @ ''</think>'' @ s)"
    using markers_lower(1) by (rule starts_with_ci_self)
  moreover have "drop 7 (''<think>'' @ r @ ''</think>'' @ s) = r @ ''</think>'' @ s"
    by simp
  ultimately have "think_match (with_reasoning r s) = Some (7 + length r + 8)"
    using find_ci_closing[OF assms, of s]
    by (simp only: think_match_def with_reasoning_def if_True option.map)
  then have step: "replace_all think_match (with_reasoning r s) =
      replace_all think_match (drop (7 + length r + 8) (with_reasoning r s))"
    by (rule replace_all_match) simp
  have a: "drop 7 (with_reasoning r s) = r @ ''</think>'' @ s"
    by (simp add: with_reasoning_def)
  have b: "drop (length r) (r @ ''</think>'' @ s) = ''</think>'' @ s"
    by simp
  have c: "drop 8 (''</think>'' @ s) = s"
    by simp
  have e: "7 + length r + 8 = 8 + (length r + 7)"
    by simp
  have "drop (7 + length r + 8) (with_reasoning r s) = s"
    unfolding e drop_drop[symmetric] a b c ..
  with step show ?thesis
    by (simp only:)
qed

lemma find_ci_nl: "find_ci ''</think>'' (v @ [nl]) = find_ci ''</think>'' v"
proof (induction v)
  case Nil
  have "\<not> starts_with_ci ''</think>'' [nl]"
    using starts_with_ci_length[of "''</think>''" "[nl]"] by auto
  then show ?case by simp
next
  case (Cons c cs)
  have "starts_with_ci ''</think>'' ((c # cs) @ nl # []) = starts_with_ci ''</think>'' (c # cs)"
    using nl_not_in_patterns(3) by (intro starts_with_ci_append) simp_all
  then show ?case
    using Cons.IH by simp
qed

lemma think_match_nl:
  assumes "u \<noteq> []"
  shows "think_match (u @ [nl]) = think_match u"
proof -
  have start: "starts_with_ci ''<think>'' (u @ nl # []) = starts_with_ci ''<think>'' u"
    using assms nl_not_in_patterns(2) by (intro starts_with_ci_append) simp_all
  show ?thesis
  proof (cases "starts_with_ci ''<think>'' u")
    case False
    then show ?thesis
      using start by (simp add: think_match_def)
  next
    case True
    then have "7 \<le> length u"
      using starts_with_ci_length[of "''<think>''" u] by simp
    then have "drop 7 (u @ [nl]) = drop 7 u @ [nl]"
      by simp
    then show ?thesis
      using start True by (simp add: think_match_def find_ci_nl)
  qed
qed

lemma replace_all_think_nl:
  "replace_all think_match (xs @ [nl]) = replace_all think_match xs @ [nl]"
proof -
  have "think_match [nl] = None"
    using starts_with_ci_length[of "''<think>''" "[nl]"] by (auto simp: think_match_def)
  then have "replace_all think_match [nl] = [nl]"
    by simp
  moreover have "replace_all think_match (xs @ [nl]) =
      replace_all think_match xs @ replace_all think_match [nl]"
    by (rule replace_all_append) (simp_all add: think_match_nl think_match_fits)
  ultimately show ?thesis by simp
qed

subsection \<open>Trimming\<close>

lemma is_ws_nl [simp]: "is_ws nl"
  by (simp add: is_ws_def nl_def)

lemma trim_nl: "trim (c @ [nl]) = trim c"
proof (cases "\<forall>x \<in> set c. is_ws x")
  case True
  then have "\<forall>x \<in> set (c @ [nl]). is_ws x"
    by simp
  then have both: "dropWhile is_ws (c @ [nl]) = []"
    by (simp only: dropWhile_eq_Nil_conv)
  have one: "dropWhile is_ws c = []"
    using True by (simp only: dropWhile_eq_Nil_conv)
  show ?thesis
    unfolding trim_def both one ..
next
  case False
  then obtain x where "x \<in> set c" and "\<not> is_ws x"
    by blast
  then have kept: "dropWhile is_ws (c @ [nl]) = dropWhile is_ws c @ [nl]"
    by simp
  show ?thesis
    unfolding trim_def kept by simp
qed

subsection \<open>The round trip\<close>

lemma fenced_stripped:
  assumes "tag = [] \<or> map to_lower tag = ''json''"
  shows "replace_all fence_match (replace_all fence_json_match (fenced tag t)) =
           replace_all fence_match (replace_all fence_json_match t) \<or>
         replace_all fence_match (replace_all fence_json_match (fenced tag t)) =
           replace_all fence_match (replace_all fence_json_match t) @ [nl]"
proof -
  let ?t1 = "replace_all fence_json_match t"
  obtain w where w: "w = nl # ''```'' \<or> w = ''```''"
    and closing: "replace_all fence_json_match (t @ nl # ''```'') = ?t1 @ w"
    using fence_json_closing[of t] by auto
  have "replace_all fence_match (replace_all fence_json_match (fenced tag t)) =
      replace_all fence_match (?t1 @ w)"
  proof (cases "tag = []")
    case True
    then have "replace_all fence_json_match (fenced tag t) = ''```'' @ nl # ?t1 @ w"
      using fence_json_opening_bare[of "t @ nl # ''```''"] closing by (simp add: fenced_def)
    then show ?thesis
      using fence_opening_bare[of "?t1 @ w"] by simp
  next
    case False
    then have "map to_lower tag = ''json''"
      using assms by simp
    then have "replace_all fence_json_match (fenced tag t) = ?t1 @ w"
      using fence_json_opening_tagged[of tag "t @ nl # ''```''"] closing
      by (simp add: fenced_def)
    then show ?thesis
      by simp
  qed
  then show ?thesis
    using fence_closing[OF w, of ?t1] by simp
qed

lemma clean_text_wrapped:
  assumes "tag = [] \<or> map to_lower tag = ''json''"
    and "find_ci ''</think>''
           (replace_all fence_match (replace_all fence_json_match thought)) = None"
  shows "clean_text (with_reasoning thought (fenced tag t)) = clean_text t"
proof -
  let ?t2 = "replace_all fence_match (replace_all fence_json_match t)"
  let ?t3 = "replace_all think_match ?t2"
  let ?f2 = "replace_all fence_match (replace_all fence_json_match (fenced tag t))"
  have "replace_all think_match (replace_all fence_match (replace_all fence_json_match
        (with_reasoning thought (fenced tag t)))) = replace_all think_match ?f2"
    by (simp add: fence_json_reasoning fence_reasoning think_reasoning[OF assms(2)])
  moreover have "replace_all think_match ?f2 = ?t3 \<or> replace_all think_match ?f2 = ?t3 @ [nl]"
    using fenced_stripped[OF assms(1), of t] replace_all_think_nl[of ?t2] by auto
  ultimately have "clean_text (with_reasoning thought (fenced tag t)) = trim ?t3 \<or>
      clean_text (with_reasoning thought (fenced tag t)) = trim (?t3 @ [nl])"
    by (auto simp: clean_text_def)
  then show ?thesis
    by (auto simp: trim_nl clean_text_def)
qed

text \<open>
  Claim C8, as stated, fails: the fence markers are stripped before the reasoning block
  is, so a reasoning text in which a fence marker splits the letters of a closing marker
  ends the block early, and what is left of it breaks the text that is decoded.
\<close>

theorem reasoning_with_fence_counterexample:
  \<open>find_ci ''</think>'' ''</thi```nk>{'' = None \<and>
   parseJSON env_decoding ''{"verdict":"uncertain"}'' =
     Inr (JObj [(''verdict'', JStr ''uncertain'')]) \<and>
   parseJSON env_decoding (with_reasoning ''</thi```nk>{'' (fenced ''json'' ''{"verdict":"uncertain"}'')) =
     Inl (SyntaxError ''Unexpected token'')\<close>
  by code_simp

text \<open>
  Claim C8, amended. For every text and every reasoning text that, once the fence
  markers are stripped from it, contains no closing marker (so every reasoning text with
  neither a fence marker nor a closing marker in it), the parser gives the same on the
  text in a fence (bare, or tagged \<open>json\<close> in any case) after the reasoning block
  as on the text alone: the same record when the text decodes, the same failure
  otherwise.
\<close>

theorem parseJSON_round_trip:
  assumes "tag = [] \<or> map to_lower tag = ''json''"
    and "find_ci ''</think>''
           (replace_all fence_match (replace_all fence_json_match thought)) = None"
  shows "parseJSON env (with_reasoning thought (fenced tag t)) = parseJSON env t \<and>
         (\<forall>r. parseJSON env t = Inr r \<longrightarrow>
              parseJSON env (with_reasoning thought (fenced tag t)) = Inr r)"
  using clean_text_wrapped[OF assms, of t] by (simp add: parseJSON_def)

theorem parseJSON_round_trip_witness:
  \<open>find_ci ''</think>''
     (replace_all fence_match (replace_all fence_json_match ''Both answers {A, B} fit.'')) = None \<and>
   parseJSON env_decoding
     (with_reasoning ''Both answers {A, B} fit.'' (fenced ''json'' ''{"verdict":"uncertain"}'')) =
     Inr (JObj [(''verdict'', JStr ''uncertain'')])\<close>
proof -
  have a: \<open>find_ci ''</think>''
     (replace_all fence_match (replace_all fence_json_match ''Both answers {A, B} fit.'')) = None\<close>
    by code_simp
  have b: \<open>parseJSON env_decoding ''{"verdict":"uncertain"}'' =
      Inr (JObj [(''verdict'', JStr ''uncertain'')])\<close>
    by code_simp
  have c: "''json'' = [] \<or> map to_lower ''json'' = ''json''"
    by (simp add: to_lower_def)
  from parseJSON_round_trip[OF c a, of env_decoding] a b show ?thesis
    by simp
qed

end

